theory Spec2Isabelle
  imports Main "HOL-Library.Word"
begin

section \<open>Cell values and their string forms\<close>

text \<open>
  A cell of a table holds a Python object. The model has the two kinds the comparison
  tells apart by type but not by string form: 64-bit integers (the values of a pandas
  column of dtype int64, read as signed) and text. \<open>str\<close> is Python's \<^verbatim>\<open>str()\<close> on
  them, which is also what \<^verbatim>\<open>astype(str)\<close> gives. Columns of any other dtype are
  outside the model: float64 (which also holds the missing values), uint64 (integers
  from \<open>2^63\<close> on), booleans and dates. Beside a column of integers such a column
  makes pandas turn the integers of a row into floating-point numbers, with another
  string form.
\<close>

datatype cell = IntV "64 word" | StrV string

fun digits :: "nat \<Rightarrow> string" where
  "digits n =
     (if n < 10 then [''0123456789'' ! n]
      else digits (n div 10) @ [''0123456789'' ! (n mod 10)])"

declare digits.simps [simp del]

definition str_int :: "int \<Rightarrow> string" where
  "str_int i = (if i < 0 then CHR ''-'' # digits (nat (- i)) else digits (nat i))"

fun str :: "cell \<Rightarrow> string" where
  "str (IntV i) = str_int (sint i)"
| "str (StrV s) = s"

text \<open>Python's \<^verbatim>\<open>sep.join(list)\<close>.\<close>

fun join :: "string \<Rightarrow> string list \<Rightarrow> string" where
  "join sep [] = []"
| "join sep [x] = x"
| "join sep (x # y # ys) = x @ sep @ join sep (y # ys)"

section \<open>Series and data frames\<close>

text \<open>
  A pandas Series taken from a row of a frame: its name (the row's index label) and
  its labelled values, in column order; labels may repeat. A frame is its column labels
  and its rows. The loader gives frames whose column labels are pairwise different,
  whose index labels are pairwise different and whose rows all carry exactly the
  frame's column labels (\<open>frame_ok\<close>).
\<close>

type_synonym items = "(string \<times> cell) list"
type_synonym series = "nat \<times> items"

record dataframe =
  columns :: "string list"
  rows :: "series list"

definition frame_ok :: "dataframe \<Rightarrow> bool" where
  "frame_ok df \<longleftrightarrow>
     distinct (columns df) \<and> distinct (map fst (rows df)) \<and>
     (\<forall>r \<in> set (rows df). map fst (snd r) = columns df)"

datatype py_error = KeyError | IndexError | InvalidIndexError

definition bind_py :: "py_error + 'a \<Rightarrow> ('a \<Rightarrow> py_error + 'b) \<Rightarrow> py_error + 'b" where
  "bind_py m f = (case m of Inl e \<Rightarrow> Inl e | Inr x \<Rightarrow> f x)"

text \<open>\<^verbatim>\<open>df[cols]\<close> with a list of labels: every entry carrying a requested label, in the
  order the labels are requested; a label the frame does not have raises KeyError.\<close>

definition select_labels :: "string list \<Rightarrow> items \<Rightarrow> items" where
  "select_labels cs its = concat (map (\<lambda>c. filter (\<lambda>e. fst e = c) its) cs)"

definition getitem_list :: "dataframe \<Rightarrow> string list \<Rightarrow> py_error + dataframe" where
  "getitem_list df cs =
     (if set cs \<subseteq> set (columns df)
      then Inr \<lparr>columns = concat (map (\<lambda>c. filter (\<lambda>l. l = c) (columns df)) cs),
                rows = map (\<lambda>r. (fst r, select_labels cs (snd r))) (rows df)\<rparr>
      else Inl KeyError)"

text \<open>\<^verbatim>\<open>df[c]\<close> with one label: the column's values, row by row.\<close>

definition getitem_col :: "dataframe \<Rightarrow> string \<Rightarrow> py_error + cell list" where
  "getitem_col df c =
     (if c \<in> set (columns df)
      then (case those (map (\<lambda>r. map_of (snd r) c) (rows df)) of
              Some vs \<Rightarrow> Inr vs
            | None \<Rightarrow> Inl KeyError)
      else Inl KeyError)"

text \<open>\<^verbatim>\<open>df[c] = vs\<close>: overwrites the column where the frame has it, appends it otherwise.\<close>

definition setitem :: "dataframe \<Rightarrow> string \<Rightarrow> cell list \<Rightarrow> dataframe" where
  "setitem df c vs =
     (if c \<in> set (columns df)
      then df\<lparr>rows := map2 (\<lambda>r v. (fst r, map (\<lambda>e. if fst e = c then (c, v) else e) (snd r)))
                          (rows df) vs\<rparr>
      else \<lparr>columns = columns df @ [c],
            rows = map2 (\<lambda>r v. (fst r, snd r @ [(c, v)])) (rows df) vs\<rparr>)"

text \<open>\<^verbatim>\<open>df[mask]\<close> with a boolean mask: the rows where the mask holds, in order.\<close>

definition getitem_mask :: "dataframe \<Rightarrow> bool list \<Rightarrow> dataframe" where
  "getitem_mask df m = df\<lparr>rows := map fst (filter snd (zip (rows df) m))\<rparr>"

text \<open>
  The loader gives a column of integers the dtype int64 and a column with text the
  dtype object; selecting columns or rows of a frame keeps the dtypes.
  \<open>selection_dtype df cs\<close> is the common dtype of the columns \<open>cs\<close> of \<open>df\<close>: int64
  when all of them are, object otherwise.
\<close>

datatype dtype = Int64 | Object

fun is_int :: "cell \<Rightarrow> bool" where
  "is_int (IntV i) = True"
| "is_int (StrV s) = False"

definition selection_dtype :: "dataframe \<Rightarrow> string list \<Rightarrow> dtype" where
  "selection_dtype df cs =
     (if list_all (\<lambda>r. list_all (\<lambda>e. is_int (snd e)) (select_labels cs (snd r))) (rows df)
      then Int64 else Object)"

text \<open>
  \<^verbatim>\<open>df.iloc[0]\<close>: the first row as a Series, IndexError when the frame has no row.
  pandas gives the Series one dtype, the common dtype \<open>dt\<close> of the frame's columns.
  Over columns of dtype int64 and object this leaves every value and its string form as
  it is; the Series is returned with its dtype, which shows when it is printed.
\<close>

type_synonym typed_row = "dtype \<times> series"

definition iloc0 :: "dtype \<Rightarrow> dataframe \<Rightarrow> py_error + typed_row" where
  "iloc0 dt df = (case rows df of [] \<Rightarrow> Inl IndexError | r # _ \<Rightarrow> Inr (dt, r))"

text \<open>
  \<^verbatim>\<open>row[col]\<close> on a Series: the value when the label occurs once, the sub-series of
  all its occurrences (with the row's name and dtype) when it repeats.
\<close>

datatype pyobj = Scalar cell | SubSeries dtype nat items

definition series_getitem :: "typed_row \<Rightarrow> string \<Rightarrow> py_error + pyobj" where
  "series_getitem s c =
     (case filter (\<lambda>e. fst e = c) (snd (snd s)) of
        [] \<Rightarrow> Inl KeyError
      | [e] \<Rightarrow> Inr (Scalar (snd e))
      | es \<Rightarrow> Inr (SubSeries (fst s) (fst (snd s)) es))"

text \<open>
  \<^verbatim>\<open>str(row[col])\<close>. For a value it is \<open>str\<close>. For a sub-series it is the text pandas
  prints for a Series, under its default display options:
  \<^item> a value of an int64 series is written with a blank in the place of the sign
    (\<^verbatim>\<open>f"{x: d}"\<close>); a value of an object series with a blank before it and with tab,
    carriage return and newline written as backslash sequences;
  \<^item> the values are cut to 50 characters (the last three become dots) and padded on
    the left to their common width;
  \<^item> a series of more than 60 entries shows its first five and last five entries,
    with a line of dots between them, and its length in the last line;
  \<^item> each line is the label, padded on the right to the longest label and three
    blanks, then the value; the last line gives the name and the dtype.
\<close>

definition ljust :: "nat \<Rightarrow> string \<Rightarrow> string" where
  "ljust n s = s @ replicate (n - length s) CHR '' ''"

definition rjust :: "nat \<Rightarrow> string \<Rightarrow> string" where
  "rjust n s = replicate (n - length s) CHR '' '' @ s"

definition center :: "nat \<Rightarrow> string \<Rightarrow> string" where
  "center n s =
     (let pad = n - length s;
          left = pad div 2 + (if odd pad \<and> odd n then 1 else 0)
      in replicate left CHR '' '' @ s @ replicate (pad - left) CHR '' '')"

definition widest :: "string list \<Rightarrow> nat" where
  "widest xs = foldr max (map length xs) 0"

definition escape_chars :: "string \<Rightarrow> string" where
  "escape_chars s =
     concat (map (\<lambda>c. if c = CHR 0x09 then [CHR 0x5C, CHR ''t'']
                      else if c = CHR 0x0D then [CHR 0x5C, CHR ''r'']
                      else if c = CHR 0x0A then [CHR 0x5C, CHR ''n'']
                      else [c]) s)"

definition format_value :: "dtype \<Rightarrow> cell \<Rightarrow> string" where
  "format_value dt v =
     (case (dt, v) of
        (Int64, IntV i) \<Rightarrow> (if sint i < 0 then str_int (sint i) else CHR '' '' # str_int (sint i))
      | _ \<Rightarrow> CHR '' '' # escape_chars (str v))"

definition make_fixed_width :: "string list \<Rightarrow> string list" where
  "make_fixed_width xs =
     (let max_len = min 50 (widest xs)
      in map (\<lambda>x. rjust max_len (if max_len < length x then take (max_len - 3) x @ ''...'' else x))
           xs)"

fun dtype_name :: "dtype \<Rightarrow> string" where
  "dtype_name Int64 = ''int64''"
| "dtype_name Object = ''object''"

definition dots_line :: "nat \<Rightarrow> string" where
  "dots_line width = center width (if 3 < width then ''...'' else ''..'')"

definition series_to_string :: "dtype \<Rightarrow> nat \<Rightarrow> items \<Rightarrow> string" where
  "series_to_string dt n es =
     (let truncated = (60 < length es);
          shown = (if truncated then take 5 es @ drop (length es - 5) es else es);
          values = make_fixed_width (map (\<lambda>e. format_value dt (snd e)) shown);
          labels = map (\<lambda>e. escape_chars (fst e)) shown;
          values = (if truncated
                    then take 5 values @ [dots_line (length (values ! 4))] @ drop 5 values
                    else values);
          labels = (if truncated then take 5 labels @ [[]] @ drop 5 labels else labels);
          lw = widest labels + 3;
          vw = widest values
      in join [CHR 0x0A] (map (\<lambda>(l, v). ljust lw l @ ljust vw v) (zip labels values))
           @ [CHR 0x0A] @ ''Name: '' @ str_int (int n)
           @ (if truncated then '', Length: '' @ str_int (int (length es)) else [])
           @ '', dtype: '' @ dtype_name dt)"

fun str_obj :: "pyobj \<Rightarrow> string" where
  "str_obj (Scalar v) = str v"
| "str_obj (SubSeries dt n es) = series_to_string dt n es"

text \<open>\<^verbatim>\<open>pd.DataFrame(list_of_series)\<close> for a non-empty list of rows that all carry the
  same labels: a series whose labels repeat cannot be aligned (InvalidIndexError).
  \<^verbatim>\<open>pd.DataFrame(columns=cols)\<close> is the empty frame with those columns.\<close>

definition DataFrame_of_series :: "series list \<Rightarrow> py_error + dataframe" where
  "DataFrame_of_series ss =
     (case ss of
        [] \<Rightarrow> Inr \<lparr>columns = [], rows = []\<rparr>
      | s # _ \<Rightarrow>
          if \<exists>r \<in> set ss. \<not> distinct (map fst (snd r)) then Inl InvalidIndexError
          else Inr \<lparr>columns = map fst (snd s), rows = ss\<rparr>)"

definition DataFrame_empty :: "string list \<Rightarrow> dataframe" where
  "DataFrame_empty cs = \<lparr>columns = cs, rows = []\<rparr>"

section \<open>The reconciliation engine: compare_dataframes\<close>

text \<open>
  The function modelled, from \<^verbatim>\<open>src/main.py\<close> (lines 42 to 83):
  \<^verbatim>\<open>
  def compare_dataframes(df_before, df_after, key_columns, compare_columns):
      df_before['_key'] = df_before[key_columns].astype(str).agg('||'.join, axis=1)
      df_after['_key'] = df_after[key_columns].astype(str).agg('||'.join, axis=1)
      cols_to_use = key_columns + compare_columns
      deleted_keys = df_before[~df_before['_key'].isin(df_after['_key'])]
      deleted = deleted_keys[cols_to_use].copy()
      added_keys = df_after[~df_after['_key'].isin(df_before['_key'])]
      added = added_keys[cols_to_use].copy()
      common_keys = set(df_before['_key']) & set(df_after['_key'])
      modified_before = []
      modified_after = []
      for key in common_keys:
          row_before = df_before[df_before['_key'] == key][cols_to_use].iloc[0]
          row_after = df_after[df_after['_key'] == key][cols_to_use].iloc[0]
          has_changes = False
          for col in compare_columns:
              if str(row_before[col]) != str(row_after[col]):
                  has_changes = True
                  break
          if has_changes:
              modified_before.append(row_before)
              modified_after.append(row_after)
      modified_before_df = pd.DataFrame(modified_before) if modified_before \<dots>
      modified_after_df = pd.DataFrame(modified_after) if modified_after \<dots>
      return deleted, added, modified_before_df, modified_after_df
  \<close>
  (the two conditional expressions end in \<^verbatim>\<open>else pd.DataFrame(columns=cols_to_use)\<close>).
  Its only caller passes copies of the two tables, a non-empty list of key columns
  chosen among the table's columns and a non-empty list of compare columns chosen among
  the remaining columns, after it has found the column sets of the two tables equal.
\<close>

text \<open>\<^verbatim>\<open>df[key_columns].astype(str).agg('||'.join, axis=1)\<close>\<close>

definition composite_key :: "items \<Rightarrow> string" where
  "composite_key its = join ''||'' (map (\<lambda>e. str (snd e)) its)"

definition key_series :: "dataframe \<Rightarrow> string list \<Rightarrow> py_error + cell list" where
  "key_series df key_columns =
     bind_py (getitem_list df key_columns)
       (\<lambda>sub. Inr (map (\<lambda>r. StrV (composite_key (snd r))) (rows sub)))"

text \<open>\<^verbatim>\<open>df[~df['_key'].isin(other['_key'])][cols_to_use]\<close>\<close>

definition rows_not_in :: "dataframe \<Rightarrow> dataframe \<Rightarrow> string list \<Rightarrow> py_error + dataframe" where
  "rows_not_in df other cols_to_use =
     bind_py (getitem_col df ''_key'') (\<lambda>ks.
     bind_py (getitem_col other ''_key'') (\<lambda>others.
       getitem_list (getitem_mask df (map (\<lambda>k. k \<notin> set others) ks)) cols_to_use))"

text \<open>\<^verbatim>\<open>df[df['_key'] == key][cols_to_use].iloc[0]\<close>. The mask and the selection keep
  the dtypes of the columns of \<open>df\<close>, so the row has the common dtype of the columns
  \<open>cols_to_use\<close> of \<open>df\<close>.\<close>

definition first_row :: "dataframe \<Rightarrow> cell \<Rightarrow> string list \<Rightarrow> py_error + typed_row" where
  "first_row df key cols_to_use =
     bind_py (getitem_col df ''_key'') (\<lambda>ks.
     bind_py (getitem_list (getitem_mask df (map (\<lambda>k. k = key) ks)) cols_to_use)
       (iloc0 (selection_dtype df cols_to_use)))"

text \<open>The inner loop over \<open>compare_columns\<close>, leaving at the first difference.\<close>

fun has_changes :: "typed_row \<Rightarrow> typed_row \<Rightarrow> string list \<Rightarrow> py_error + bool" where
  "has_changes row_before row_after [] = Inr False"
| "has_changes row_before row_after (col # cols) =
     bind_py (series_getitem row_before col) (\<lambda>x.
     bind_py (series_getitem row_after col) (\<lambda>y.
       if str_obj x \<noteq> str_obj y then Inr True
       else has_changes row_before row_after cols))"

text \<open>The loop over \<open>common_keys\<close>, taken in the order the Python set yields them,
  with the two lists of rows it appends to.\<close>

fun modified_loop ::
  "dataframe \<Rightarrow> dataframe \<Rightarrow> string list \<Rightarrow> string list \<Rightarrow> cell list
     \<Rightarrow> series list \<times> series list \<Rightarrow> py_error + (series list \<times> series list)" where
  "modified_loop df_before df_after cols_to_use compare_columns [] acc = Inr acc"
| "modified_loop df_before df_after cols_to_use compare_columns (key # keys) acc =
     bind_py (first_row df_before key cols_to_use) (\<lambda>row_before.
     bind_py (first_row df_after key cols_to_use) (\<lambda>row_after.
     bind_py (has_changes row_before row_after compare_columns) (\<lambda>changed.
       modified_loop df_before df_after cols_to_use compare_columns keys
         (if changed then (fst acc @ [snd row_before], snd acc @ [snd row_after])
          else acc))))"

record comparison =
  deleted :: dataframe
  added :: dataframe
  modified_before_df :: dataframe
  modified_after_df :: dataframe

text \<open>
  A Python set yields its elements once each, in an order the language does not fix:
  \<open>set_iteration S ks\<close> says that \<open>ks\<close> is one such order for the set \<open>S\<close>. The engine
  takes the order as its first argument.
\<close>

definition set_iteration :: "cell set \<Rightarrow> cell list \<Rightarrow> bool" where
  "set_iteration S ks \<longleftrightarrow> distinct ks \<and> set ks = S"

definition compare_body ::
  "cell list \<Rightarrow> dataframe \<Rightarrow> dataframe \<Rightarrow> string list \<Rightarrow> string list
     \<Rightarrow> py_error + comparison" where
  "compare_body common_keys df_before df_after key_columns compare_columns =
     (let cols_to_use = key_columns @ compare_columns in
      bind_py (rows_not_in df_before df_after cols_to_use) (\<lambda>deleted.
      bind_py (rows_not_in df_after df_before cols_to_use) (\<lambda>added.
      bind_py (modified_loop df_before df_after cols_to_use compare_columns common_keys ([], []))
        (\<lambda>(modified_before, modified_after).
      bind_py (if modified_before \<noteq> [] then DataFrame_of_series modified_before
               else Inr (DataFrame_empty cols_to_use)) (\<lambda>mb.
      bind_py (if modified_after \<noteq> [] then DataFrame_of_series modified_after
               else Inr (DataFrame_empty cols_to_use)) (\<lambda>ma.
        Inr \<lparr>deleted = deleted, added = added,
             modified_before_df = mb, modified_after_df = ma\<rparr>))))))"

text \<open>
  The function itself. Its two frame arguments are Python objects it assigns to, so
  the model returns them as they are when the call ends (normally or by an exception),
  followed by the outcome.
\<close>

definition compare_dataframes ::
  "cell list \<Rightarrow> dataframe \<Rightarrow> dataframe \<Rightarrow> string list \<Rightarrow> string list
     \<Rightarrow> dataframe \<times> dataframe \<times> (py_error + comparison)" where
  "compare_dataframes common_keys df_before df_after key_columns compare_columns =
     (case key_series df_before key_columns of
        Inl e \<Rightarrow> (df_before, df_after, Inl e)
      | Inr kb \<Rightarrow>
          let df_before' = setitem df_before ''_key'' kb in
          (case key_series df_after key_columns of
             Inl e \<Rightarrow> (df_before', df_after, Inl e)
           | Inr ka \<Rightarrow>
               let df_after' = setitem df_after ''_key'' ka in
               (df_before', df_after',
                compare_body common_keys df_before' df_after' key_columns compare_columns)))"

text \<open>
  The composite key the function computes for a row of a table it is given, the keys of
  a table row by row, and the set \<^verbatim>\<open>set(df_before['_key']) & set(df_after['_key'])\<close>
  the loop runs over (\<open>getitem_col_keyed\<close> below: the stored column holds these keys).
\<close>

definition row_key :: "string list \<Rightarrow> series \<Rightarrow> cell" where
  "row_key key_columns r = StrV (composite_key (select_labels key_columns (snd r)))"

definition keys_of :: "dataframe \<Rightarrow> string list \<Rightarrow> cell list" where
  "keys_of df key_columns = map (row_key key_columns) (rows df)"

definition common_key_set :: "dataframe \<Rightarrow> dataframe \<Rightarrow> string list \<Rightarrow> cell set" where
  "common_key_set df_before df_after key_columns =
     set (keys_of df_before key_columns) \<inter> set (keys_of df_after key_columns)"

section \<open>Notions for stating the properties\<close>

text \<open>
  The frame after the assignment of line 45 (46): \<open>keyed df key_columns\<close> is \<open>df\<close>
  with the column \<open>_key\<close> set to the composite keys, and \<open>with_key\<close> is what a row of
  \<open>df\<close> has become in it. \<open>project\<close> is such a row restricted to \<open>cols\<close>: the row
  as an output table shows it.
\<close>

definition with_key :: "dataframe \<Rightarrow> string list \<Rightarrow> series \<Rightarrow> series" where
  "with_key df key_columns r =
     (fst r,
      if ''_key'' \<in> set (columns df)
      then map (\<lambda>e. if fst e = ''_key'' then (''_key'', row_key key_columns r) else e) (snd r)
      else snd r @ [(''_key'', row_key key_columns r)])"

definition keyed :: "dataframe \<Rightarrow> string list \<Rightarrow> dataframe" where
  "keyed df key_columns = setitem df ''_key'' (keys_of df key_columns)"

definition project :: "dataframe \<Rightarrow> string list \<Rightarrow> string list \<Rightarrow> series \<Rightarrow> series" where
  "project df key_columns cols r = (fst r, select_labels cols (snd (with_key df key_columns r)))"

text \<open>
  The first row of a table with the composite key \<open>k\<close>, and that row as the loop
  takes it (\<open>located\<close>, and \<open>typed_located\<close> with its dtype; a common key has such a
  row in both tables, so the other case does not arise in the loop). \<open>pair_changed\<close>
  is the outcome of the inner loop for the pair of rows of the key \<open>k\<close>.
\<close>

definition first_with_key :: "dataframe \<Rightarrow> string list \<Rightarrow> cell \<Rightarrow> series option" where
  "first_with_key df key_columns k = find (\<lambda>r. row_key key_columns r = k) (rows df)"

definition located :: "dataframe \<Rightarrow> string list \<Rightarrow> string list \<Rightarrow> cell \<Rightarrow> series" where
  "located df key_columns cols k =
     (case first_with_key df key_columns k of
        Some r \<Rightarrow> project df key_columns cols r
      | None \<Rightarrow> (0, []))"

definition typed_located :: "dataframe \<Rightarrow> string list \<Rightarrow> string list \<Rightarrow> cell \<Rightarrow> typed_row" where
  "typed_located df key_columns cols k =
     (selection_dtype (keyed df key_columns) cols, located df key_columns cols k)"

definition pair_changed ::
  "dataframe \<Rightarrow> dataframe \<Rightarrow> string list \<Rightarrow> string list \<Rightarrow> cell \<Rightarrow> bool" where
  "pair_changed b a key_columns compare_columns k \<longleftrightarrow>
     has_changes (typed_located b key_columns (key_columns @ compare_columns) k)
                 (typed_located a key_columns (key_columns @ compare_columns) k) compare_columns
       = Inr True"

text \<open>
  A valid call: both tables are well-formed, every selected column is a column of both
  tables, no column is selected twice (the caller offers as compare columns the columns
  that are not key columns), and \<open>ks\<close> is an order in which the set of common keys is
  iterated. The caller also passes non-empty selections and tables with equal column
  sets; no property below needs that.
\<close>

definition valid_call ::
  "cell list \<Rightarrow> dataframe \<Rightarrow> dataframe \<Rightarrow> string list \<Rightarrow> string list \<Rightarrow> bool" where
  "valid_call ks df_before df_after key_columns compare_columns \<longleftrightarrow>
     frame_ok df_before \<and> frame_ok df_after \<and>
     set (key_columns @ compare_columns) \<subseteq> set (columns df_before) \<and>
     set (key_columns @ compare_columns) \<subseteq> set (columns df_after) \<and>
     distinct (key_columns @ compare_columns) \<and>
     set_iteration (common_key_set df_before df_after key_columns) ks"

text \<open>The rows of a table whose composite key is not among the other table's, and the
  common keys whose pair of rows the inner loop finds changed, in the order visited.\<close>

definition unmatched :: "dataframe \<Rightarrow> dataframe \<Rightarrow> string list \<Rightarrow> series list" where
  "unmatched df other key_columns =
     filter (\<lambda>r. row_key key_columns r \<notin> set (keys_of other key_columns)) (rows df)"

definition modified_keys ::
  "cell list \<Rightarrow> dataframe \<Rightarrow> dataframe \<Rightarrow> string list \<Rightarrow> string list \<Rightarrow> cell list" where
  "modified_keys ks b a key_columns compare_columns =
     filter (pair_changed b a key_columns compare_columns) ks"

text \<open>A frame with one column left out: what remains of it when \<open>c\<close> is disregarded.\<close>

definition without_column :: "string \<Rightarrow> dataframe \<Rightarrow> dataframe" where
  "without_column c df =
     \<lparr>columns = filter (\<lambda>l. l \<noteq> c) (columns df),
      rows = map (\<lambda>r. (fst r, filter (\<lambda>e. fst e \<noteq> c) (snd r))) (rows df)\<rparr>"

text \<open>A table has the layout \<open>cols\<close> when these are its columns and every row carries
  exactly these labels, in this order.\<close>

definition has_layout :: "string list \<Rightarrow> dataframe \<Rightarrow> bool" where
  "has_layout cols t \<longleftrightarrow> columns t = cols \<and> list_all (\<lambda>r. map fst (snd r) = cols) (rows t)"

text \<open>The projection of a source row to the selected columns, as the spec describes an
  output row: the row's index label and its values at \<open>cols\<close>, in that order.\<close>

definition projection :: "string list \<Rightarrow> series \<Rightarrow> series" where
  "projection cols r = (fst r, select_labels cols (snd r))"

text \<open>The composite key of the row of \<open>df\<close> that carries the index label \<open>n\<close>. Output
  rows keep the index label of the source row they were taken from.\<close>

definition key_of_label :: "dataframe \<Rightarrow> string list \<Rightarrow> nat \<Rightarrow> cell option" where
  "key_of_label df key_columns n = map_of (map (\<lambda>r. (fst r, row_key key_columns r)) (rows df)) n"

definition source_keys :: "dataframe \<Rightarrow> string list \<Rightarrow> dataframe \<Rightarrow> cell option list" where
  "source_keys df key_columns t = map (\<lambda>m. key_of_label df key_columns (fst m)) (rows t)"

text \<open>
  The classes of the partition property, read off the engine's output: a row is
  Deleted (Added) when its index label is in the Deleted (Added) table, matched-modified
  when its composite key is that of a row of ModifiedBefore (ModifiedAfter), and
  matched-unmodified when its composite key occurs in the other table and it is not
  matched-modified. \<open>classes_before\<close> lists the classes a row of the before table falls
  into.
\<close>

datatype row_class = Deleted | Added | MatchedUnmodified | MatchedModified

definition label_in :: "dataframe \<Rightarrow> series \<Rightarrow> bool" where
  "label_in t r \<longleftrightarrow> fst r \<in> fst ` set (rows t)"

definition key_in :: "dataframe \<Rightarrow> string list \<Rightarrow> dataframe \<Rightarrow> series \<Rightarrow> bool" where
  "key_in src key_columns t r \<longleftrightarrow> Some (row_key key_columns r) \<in> set (source_keys src key_columns t)"

definition classes_before ::
  "comparison \<Rightarrow> dataframe \<Rightarrow> dataframe \<Rightarrow> string list \<Rightarrow> series \<Rightarrow> row_class list" where
  "classes_before out df_before df_after key_columns r =
     (if label_in (deleted out) r then [Deleted] else []) @
     (if row_key key_columns r \<in> set (keys_of df_after key_columns) \<and>
         \<not> key_in df_before key_columns (modified_before_df out) r
      then [MatchedUnmodified] else []) @
     (if key_in df_before key_columns (modified_before_df out) r then [MatchedModified] else [])"

definition classes_after ::
  "comparison \<Rightarrow> dataframe \<Rightarrow> dataframe \<Rightarrow> string list \<Rightarrow> series \<Rightarrow> row_class list" where
  "classes_after out df_before df_after key_columns r =
     (if label_in (added out) r then [Added] else []) @
     (if row_key key_columns r \<in> set (keys_of df_before key_columns) \<and>
         \<not> key_in df_after key_columns (modified_after_df out) r
      then [MatchedUnmodified] else []) @
     (if key_in df_after key_columns (modified_after_df out) r then [MatchedModified] else [])"

text \<open>The string forms of a row's key values, in key-column order.\<close>

definition key_strings :: "string list \<Rightarrow> series \<Rightarrow> string list" where
  "key_strings key_columns r = map (\<lambda>e. str (snd e)) (select_labels key_columns (snd r))"

definition bar_free :: "string list \<Rightarrow> bool" where
  "bar_free xs \<longleftrightarrow> list_all (\<lambda>x. CHR ''|'' \<notin> set x) xs"

text \<open>
  The composite key of a row in the words of the spec: the string forms of its key
  values joined by the separator. \<open>same_key_rows b a kc mb ma\<close> says of an output row
  \<open>mb\<close> and an output row \<open>ma\<close> that they are taken from a row of the before table and
  a row of the after table (found by their index labels) with equal composite keys.
\<close>

definition joined_key :: "string list \<Rightarrow> series \<Rightarrow> string" where
  "joined_key key_columns r = join ''||'' (key_strings key_columns r)"

definition same_key_rows ::
  "dataframe \<Rightarrow> dataframe \<Rightarrow> string list \<Rightarrow> series \<Rightarrow> series \<Rightarrow> bool" where
  "same_key_rows b a key_columns mb ma \<longleftrightarrow>
     (\<exists>rb \<in> set (rows b). \<exists>ra \<in> set (rows a).
        fst rb = fst mb \<and> fst ra = fst ma \<and> joined_key key_columns rb = joined_key key_columns ra)"

subsection \<open>Example tables\<close>

text \<open>The end-to-end example of the spec (section 8, item 6).\<close>

definition ex_before :: dataframe where
  "ex_before = \<lparr>columns = [''id'', ''name'', ''val''],
     rows = [(0, [(''id'', IntV 1), (''name'', StrV ''A''), (''val'', IntV 10)]),
             (1, [(''id'', IntV 2), (''name'', StrV ''B''), (''val'', IntV 20)])]\<rparr>"

definition ex_after :: dataframe where
  "ex_after = \<lparr>columns = [''id'', ''name'', ''val''],
     rows = [(0, [(''id'', IntV 1), (''name'', StrV ''A''), (''val'', IntV 99)]),
             (1, [(''id'', IntV 3), (''name'', StrV ''C''), (''val'', IntV 30)])]\<rparr>"

text \<open>Two one-row tables with different keys.\<close>

definition one_before :: dataframe where
  "one_before = \<lparr>columns = [''id'', ''val''], rows = [(0, [(''id'', IntV 1), (''val'', IntV 10)])]\<rparr>"

definition one_after :: dataframe where
  "one_after = \<lparr>columns = [''id'', ''val''], rows = [(0, [(''id'', IntV 2), (''val'', IntV 10)])]\<rparr>"

text \<open>Two tables that have a column named \<open>_key\<close>.\<close>

definition key_before :: dataframe where
  "key_before = \<lparr>columns = [''id'', ''_key''],
     rows = [(0, [(''id'', IntV 1), (''_key'', StrV ''x'')])]\<rparr>"

definition key_after :: dataframe where
  "key_after = \<lparr>columns = [''id'', ''_key''],
     rows = [(0, [(''id'', IntV 1), (''_key'', StrV ''y'')])]\<rparr>"

text \<open>Two tables whose key values contain the separator.\<close>

definition sep_before :: dataframe where
  "sep_before = \<lparr>columns = [''dept'', ''empId'', ''val''],
     rows = [(0, [(''dept'', StrV ''a||b''), (''empId'', StrV ''c''), (''val'', IntV 1)])]\<rparr>"

definition sep_after :: dataframe where
  "sep_after = \<lparr>columns = [''dept'', ''empId'', ''val''],
     rows = [(0, [(''dept'', StrV ''a''), (''empId'', StrV ''b||c''), (''val'', IntV 2)])]\<rparr>"

text \<open>Two tables in which rows share a composite key: key 1 twice in the before
  table, key 2 twice in the after table.\<close>

definition dup_before :: dataframe where
  "dup_before = \<lparr>columns = [''id'', ''val''],
     rows = [(0, [(''id'', IntV 1), (''val'', IntV 10)]),
             (1, [(''id'', IntV 1), (''val'', IntV 11)]),
             (2, [(''id'', IntV 2), (''val'', IntV 5)]),
             (3, [(''id'', IntV 7), (''val'', IntV 0)])]\<rparr>"

definition dup_after :: dataframe where
  "dup_after = \<lparr>columns = [''id'', ''val''],
     rows = [(0, [(''id'', IntV 1), (''val'', IntV 99)]),
             (1, [(''id'', IntV 2), (''val'', IntV 6)]),
             (2, [(''id'', IntV 2), (''val'', IntV 5)]),
             (3, [(''id'', IntV 8), (''val'', IntV 0)])]\<rparr>"

text \<open>What the engine returns for them when key 2 is visited before key 1.\<close>

definition dup_output :: comparison where
  "dup_output =
     \<lparr>deleted = \<lparr>columns = [''id'', ''val''], rows = [(3, [(''id'', IntV 7), (''val'', IntV 0)])]\<rparr>,
      added = \<lparr>columns = [''id'', ''val''], rows = [(3, [(''id'', IntV 8), (''val'', IntV 0)])]\<rparr>,
      modified_before_df = \<lparr>columns = [''id'', ''val''],
         rows = [(2, [(''id'', IntV 2), (''val'', IntV 5)]), (0, [(''id'', IntV 1), (''val'', IntV 10)])]\<rparr>,
      modified_after_df = \<lparr>columns = [''id'', ''val''],
         rows = [(1, [(''id'', IntV 2), (''val'', IntV 6)]), (0, [(''id'', IntV 1), (''val'', IntV 99)])]\<rparr>\<rparr>"

text \<open>A value that is the integer 5 in one table and the text 5 in the other.\<close>

definition five_before :: dataframe where
  "five_before = \<lparr>columns = [''id'', ''val''], rows = [(0, [(''id'', IntV 1), (''val'', IntV 5)])]\<rparr>"

definition five_after :: dataframe where
  "five_after = \<lparr>columns = [''id'', ''val''], rows = [(0, [(''id'', IntV 1), (''val'', StrV ''5'')])]\<rparr>"

text \<open>Two tables with the same first row; the column \<open>id\<close> has the dtype int64 in the
  first and object in the second.\<close>

definition typed_before :: dataframe where
  "typed_before =
    \<lparr>columns = [''id'', ''name''],
     rows = [(0, [(''id'', IntV 1), (''name'', StrV ''A'')]),
             (1, [(''id'', IntV 2), (''name'', StrV ''B'')])]\<rparr>"

definition typed_after :: dataframe where
  "typed_after =
    \<lparr>columns = [''id'', ''name''],
     rows = [(0, [(''id'', IntV 1), (''name'', StrV ''A'')]),
             (1, [(''id'', StrV ''x''), (''name'', StrV ''B'')])]\<rparr>"

text \<open>The engine's output on the spec's example with the key columns \<open>id\<close> and
  \<open>name\<close> and the compare column \<open>val\<close>.\<close>

definition pair_output :: comparison where
  "pair_output =
     \<lparr>deleted = \<lparr>columns = [''id'', ''name'', ''val''],
        rows = [(1, [(''id'', IntV 2), (''name'', StrV ''B''), (''val'', IntV 20)])]\<rparr>,
      added = \<lparr>columns = [''id'', ''name'', ''val''],
        rows = [(1, [(''id'', IntV 3), (''name'', StrV ''C''), (''val'', IntV 30)])]\<rparr>,
      modified_before_df = \<lparr>columns = [''id'', ''name'', ''val''],
        rows = [(0, [(''id'', IntV 1), (''name'', StrV ''A''), (''val'', IntV 10)])]\<rparr>,
      modified_after_df = \<lparr>columns = [''id'', ''name'', ''val''],
        rows = [(0, [(''id'', IntV 1), (''name'', StrV ''A''), (''val'', IntV 99)])]\<rparr>\<rparr>"

section \<open>The engine, equation by equation\<close>

lemma bind_py_simps [simp]:
  "bind_py (Inl e) f = Inl e" "bind_py (Inr x) f = f x"
  by (simp_all add: bind_py_def)

lemma map2_map_same: "map2 f xs (map g xs) = map (\<lambda>x. f x (g x)) xs"
  by (induction xs) auto

lemma mask_map_same: "map fst (filter snd (zip (map h xs) (map g xs))) = map h (filter g xs)"
  by (induction xs) auto

lemma key_series_eq:
  "key_series df kc = (if set kc \<subseteq> set (columns df) then Inr (keys_of df kc) else Inl KeyError)"
  by (simp add: key_series_def getitem_list_def keys_of_def row_key_def)

lemma rows_keyed: "rows (keyed df kc) = map (with_key df kc) (rows df)"
  by (auto simp: keyed_def setitem_def keys_of_def map2_map_same with_key_def)

lemma columns_keyed:
  "columns (keyed df kc) = (if ''_key'' \<in> set (columns df) then columns df else columns df @ [''_key''])"
  by (simp add: keyed_def setitem_def)

lemma fst_with_key [simp]: "fst (with_key df kc r) = fst r"
  by (simp add: with_key_def)

lemma labels_replace: "map fst (map (\<lambda>e. if fst e = c then (c, v) else e) its) = map fst its"
  by (induction its) auto

lemma labels_replace':
  "map (\<lambda>e. fst (if fst e = c then (c, v) else e)) its = map fst its"
  by (induction its) auto

lemma frame_ok_keyed: "frame_ok df \<Longrightarrow> frame_ok (keyed df kc)"
  by (auto simp: frame_ok_def rows_keyed columns_keyed with_key_def labels_replace' comp_def)

lemma those_map_Some: "those (map (\<lambda>x. Some (f x)) xs) = Some (map f xs)"
  by (induction xs) auto

lemma map_of_replace:
  "c \<in> fst ` set its \<Longrightarrow> map_of (map (\<lambda>e. if fst e = c then (c, v) else e) its) c = Some v"
  by (induction its) auto

lemma map_of_snoc: "c \<notin> fst ` set its \<Longrightarrow> map_of (its @ [(c, v)]) c = Some v"
  by (induction its) auto

lemma key_cell_with_key:
  assumes "frame_ok df" "r \<in> set (rows df)"
  shows "map_of (snd (with_key df kc r)) ''_key'' = Some (row_key kc r)"
proof -
  from assms have lab: "map fst (snd r) = columns df" by (simp add: frame_ok_def)
  then have "fst ` set (snd r) = set (columns df)" by (metis set_map)
  then show ?thesis by (simp add: with_key_def map_of_replace map_of_snoc del: map_of_append)
qed

lemma getitem_col_keyed:
  assumes "frame_ok df"
  shows "getitem_col (keyed df kc) ''_key'' = Inr (keys_of df kc)"
proof -
  have "map (\<lambda>r. map_of (snd r) ''_key'') (rows (keyed df kc))
        = map (\<lambda>r. Some (row_key kc r)) (rows df)"
    using assms by (simp add: rows_keyed key_cell_with_key)
  then show ?thesis
    by (simp add: getitem_col_def columns_keyed those_map_Some keys_of_def)
qed

lemma compare_dataframes_eq:
  assumes "set kc \<subseteq> set (columns b)" "set kc \<subseteq> set (columns a)"
  shows "compare_dataframes ks b a kc cc
         = (keyed b kc, keyed a kc, compare_body ks (keyed b kc) (keyed a kc) kc cc)"
  using assms by (simp add: compare_dataframes_def key_series_eq keyed_def Let_def)

lemma filter_label_replace:
  "c \<noteq> k \<Longrightarrow> filter (\<lambda>e. fst e = c) (map (\<lambda>e. if fst e = k then (k, v) else e) its)
     = filter (\<lambda>e. fst e = c) its"
  by (induction its) auto

lemma select_labels_with_key:
  assumes "''_key'' \<notin> set cs"
  shows "select_labels cs (snd (with_key df kc r)) = select_labels cs (snd r)"
proof -
  have "\<And>c. c \<in> set cs \<Longrightarrow>
          filter (\<lambda>e. fst e = c) (snd (with_key df kc r)) = filter (\<lambda>e. fst e = c) (snd r)"
    using assms by (auto simp: with_key_def filter_label_replace)
  then show ?thesis by (simp add: select_labels_def cong: map_cong)
qed

lemma filter_label_distinct:
  "distinct (map fst its) \<Longrightarrow> map_of its c = Some v \<Longrightarrow> filter (\<lambda>e. fst e = c) its = [(c, v)]"
proof (induction its)
  case Nil
  then show ?case by simp
next
  case (Cons e its)
  show ?case
  proof (cases "fst e = c")
    case True
    with Cons.prems have "c \<notin> fst ` set its" by auto
    then have "filter (\<lambda>e. fst e = c) its = []"
      by (auto simp: filter_empty_conv)
    with True Cons.prems show ?thesis by (cases e) auto
  next
    case False
    with Cons show ?thesis by (cases e) auto
  qed
qed

lemma labels_select:
  assumes "distinct (map fst its)" "set cs \<subseteq> fst ` set its"
  shows "map fst (select_labels cs its) = cs"
  using assms(2)
proof (induction cs)
  case Nil
  then show ?case by (simp add: select_labels_def)
next
  case (Cons c cs)
  then have "c \<in> fst ` set its" by simp
  then have "map_of its c \<noteq> None" by (simp add: map_of_eq_None_iff)
  then obtain v where "map_of its c = Some v" by blast
  with assms(1) have "filter (\<lambda>e. fst e = c) its = [(c, v)]"
    by (simp add: filter_label_distinct)
  with Cons show ?case by (simp add: select_labels_def)
qed

lemma map_of_filter_label:
  "map_of (filter (\<lambda>e. fst e = c) its) d = (if d = c then map_of its c else None)"
  by (induction its) auto

lemma map_of_select_labels:
  "map_of (select_labels cs its) c = (if c \<in> set cs then map_of its c else None)"
  unfolding select_labels_def
  by (induction cs) (auto simp: map_add_def map_of_filter_label split: option.splits)

lemma filter_eq_distinct:
  "distinct xs \<Longrightarrow> c \<in> set xs \<Longrightarrow> filter (\<lambda>l. l = c) xs = [c]"
  by (induction xs) (auto simp: filter_empty_conv)

lemma concat_filter_same:
  assumes "distinct xs" "set cs \<subseteq> set xs"
  shows "concat (map (\<lambda>c. filter (\<lambda>l. l = c) xs) cs) = cs"
  using assms(2)
proof (induction cs)
  case Nil
  then show ?case by simp
next
  case (Cons c cs)
  from assms(1) Cons.prems have "filter (\<lambda>l. l = c) xs = [c]"
    by (simp add: filter_eq_distinct)
  with Cons show ?case by simp
qed

lemma getitem_mask_keyed:
  "getitem_mask (keyed df kc) (map P (keys_of df kc))
     = \<lparr>columns = columns (keyed df kc),
         rows = map (with_key df kc) (filter (\<lambda>r. P (row_key kc r)) (rows df))\<rparr>"
proof -
  have "map fst (filter snd (zip (map (with_key df kc) (rows df)) (map (\<lambda>r. P (row_key kc r)) (rows df))))
        = map (with_key df kc) (filter (\<lambda>r. P (row_key kc r)) (rows df))"
    by (rule mask_map_same)
  then show ?thesis
    by (simp add: getitem_mask_def rows_keyed keys_of_def comp_def)
qed

lemma rows_not_in_keyed:
  assumes "frame_ok df" "frame_ok other"
  shows "rows_not_in (keyed df kc) (keyed other kc) cols
         = (if set cols \<subseteq> set (columns (keyed df kc))
            then Inr \<lparr>columns = cols,
                      rows = map (project df kc cols)
                               (filter (\<lambda>r. row_key kc r \<notin> set (keys_of other kc)) (rows df))\<rparr>
            else Inl KeyError)"
proof -
  have "distinct (columns (keyed df kc))"
    using frame_ok_keyed [OF assms(1)] by (simp add: frame_ok_def)
  then show ?thesis
    using assms
    by (simp add: rows_not_in_def getitem_col_keyed getitem_mask_keyed getitem_list_def
        concat_filter_same project_def comp_def)
qed

lemma first_row_keyed:
  assumes "frame_ok df" "set cols \<subseteq> set (columns (keyed df kc))"
  shows "first_row (keyed df kc) k cols
         = (case filter (\<lambda>r. row_key kc r = k) (rows df) of
              [] \<Rightarrow> Inl IndexError
            | r # _ \<Rightarrow> Inr (selection_dtype (keyed df kc) cols, project df kc cols r))"
  using assms
  by (simp add: first_row_def getitem_col_keyed getitem_mask_keyed getitem_list_def iloc0_def
      project_def split: list.splits)

lemma case_filter_find:
  "(case filter P xs of [] \<Rightarrow> a | r # _ \<Rightarrow> f r) = (case find P xs of None \<Rightarrow> a | Some r \<Rightarrow> f r)"
  by (induction xs) auto

lemma find_in_keys:
  "k \<in> set (keys_of df kc) \<Longrightarrow> \<exists>r. first_with_key df kc k = Some r"
  by (cases "first_with_key df kc k") (auto simp: first_with_key_def keys_of_def find_None_iff)

lemma first_with_key_SomeD:
  "first_with_key df kc k = Some r \<Longrightarrow> r \<in> set (rows df) \<and> row_key kc r = k"
  by (auto simp: first_with_key_def find_Some_iff)

lemma first_row_located:
  assumes "frame_ok df" "set cols \<subseteq> set (columns (keyed df kc))" "k \<in> set (keys_of df kc)"
  shows "first_row (keyed df kc) k cols = Inr (typed_located df kc cols k)"
proof -
  from assms(3) obtain r where "first_with_key df kc k = Some r"
    using find_in_keys by blast
  then show ?thesis
    using assms(1,2)
    by (simp add: first_row_keyed case_filter_find located_def typed_located_def
        first_with_key_def)
qed

lemma labels_with_key:
  assumes "frame_ok df" "r \<in> set (rows df)"
  shows "map fst (snd (with_key df kc r)) = columns (keyed df kc)"
  using frame_ok_keyed [OF assms(1), of kc] assms(2)
  by (simp add: frame_ok_def rows_keyed)

lemma labels_project:
  assumes "frame_ok df" "r \<in> set (rows df)" "set cols \<subseteq> set (columns (keyed df kc))"
  shows "map fst (snd (project df kc cols r)) = cols"
proof -
  have l: "map fst (snd (with_key df kc r)) = columns (keyed df kc)"
    using assms by (simp add: labels_with_key)
  moreover have "distinct (columns (keyed df kc))"
    using frame_ok_keyed [OF assms(1)] by (simp add: frame_ok_def)
  moreover have "fst ` set (snd (with_key df kc r)) = set (columns (keyed df kc))"
    using l by (metis set_map)
  ultimately show ?thesis
    using assms(3) by (simp add: project_def labels_select)
qed

lemma labels_located:
  assumes "frame_ok df" "set cols \<subseteq> set (columns (keyed df kc))" "k \<in> set (keys_of df kc)"
  shows "map fst (snd (located df kc cols k)) = cols"
proof -
  from assms(3) obtain r where r: "first_with_key df kc k = Some r"
    using find_in_keys by blast
  then have "r \<in> set (rows df)" by (simp add: first_with_key_SomeD)
  with assms r show ?thesis by (simp add: located_def labels_project)
qed

lemma snd_typed_located [simp]: "snd (typed_located df kc cols k) = located df kc cols k"
  by (simp add: typed_located_def)

lemma series_getitem_total:
  "c \<in> fst ` set (snd (snd s)) \<Longrightarrow> \<exists>x. series_getitem s c = Inr x"
proof -
  assume "c \<in> fst ` set (snd (snd s))"
  then have "filter (\<lambda>e. fst e = c) (snd (snd s)) \<noteq> []"
    by (auto simp: filter_empty_conv)
  then show ?thesis
    by (auto simp: series_getitem_def split: list.splits)
qed

lemma has_changes_total:
  assumes "set cc \<subseteq> fst ` set (snd (snd rb))" "set cc \<subseteq> fst ` set (snd (snd ra))"
  shows "\<exists>b. has_changes rb ra cc = Inr b"
  using assms
proof (induction cc)
  case Nil
  then show ?case by auto
next
  case (Cons c cc)
  then obtain x y where "series_getitem rb c = Inr x" "series_getitem ra c = Inr y"
    using series_getitem_total [of c rb] series_getitem_total [of c ra] by auto
  with Cons show ?case by auto
qed

lemma modified_loop_eq:
  assumes "frame_ok b" "frame_ok a"
    and "set (kc @ cc) \<subseteq> set (columns (keyed b kc))"
    and "set (kc @ cc) \<subseteq> set (columns (keyed a kc))"
    and "set ks \<subseteq> set (keys_of b kc) \<inter> set (keys_of a kc)"
  shows "modified_loop (keyed b kc) (keyed a kc) (kc @ cc) cc ks acc
         = Inr (fst acc @ map (located b kc (kc @ cc)) (filter (pair_changed b a kc cc) ks),
                snd acc @ map (located a kc (kc @ cc)) (filter (pair_changed b a kc cc) ks))"
  using assms(5)
proof (induction ks arbitrary: acc)
  case Nil
  then show ?case by simp
next
  case (Cons k ks)
  then have kb: "k \<in> set (keys_of b kc)" and ka: "k \<in> set (keys_of a kc)" by auto
  have rb: "first_row (keyed b kc) k (kc @ cc) = Inr (typed_located b kc (kc @ cc) k)"
    using assms(1,3) kb by (rule first_row_located)
  have ra: "first_row (keyed a kc) k (kc @ cc) = Inr (typed_located a kc (kc @ cc) k)"
    using assms(2,4) ka by (rule first_row_located)
  have "map fst (snd (located b kc (kc @ cc) k)) = kc @ cc"
    using assms(1,3) kb by (rule labels_located)
  then have "fst ` set (snd (located b kc (kc @ cc) k)) = set (kc @ cc)"
    by (metis set_map)
  then have lb: "set cc \<subseteq> fst ` set (snd (snd (typed_located b kc (kc @ cc) k)))"
    by simp
  have "map fst (snd (located a kc (kc @ cc) k)) = kc @ cc"
    using assms(2,4) ka by (rule labels_located)
  then have "fst ` set (snd (located a kc (kc @ cc) k)) = set (kc @ cc)"
    by (metis set_map)
  then have la: "set cc \<subseteq> fst ` set (snd (snd (typed_located a kc (kc @ cc) k)))"
    by simp
  from has_changes_total [OF lb la] obtain ch where
    ch: "has_changes (typed_located b kc (kc @ cc) k) (typed_located a kc (kc @ cc) k) cc
           = Inr ch"
    by blast
  then have pc: "pair_changed b a kc cc k = ch"
    by (simp add: pair_changed_def)
  from Cons.prems have "set ks \<subseteq> set (keys_of b kc) \<inter> set (keys_of a kc)" by simp
  note IH = Cons.IH [OF this]
  show ?case
    by (simp add: rb ra ch pc IH)
qed

lemma DataFrame_of_series_labels:
  assumes "ss \<noteq> []" "\<forall>r \<in> set ss. map fst (snd r) = cols"
  shows "DataFrame_of_series ss
         = (if distinct cols then Inr \<lparr>columns = cols, rows = ss\<rparr> else Inl InvalidIndexError)"
  using assms by (cases ss) (auto simp: DataFrame_of_series_def)

lemma frame_of_located:
  assumes "frame_ok df" "set cols \<subseteq> set (columns (keyed df kc))"
    and "set sel \<subseteq> set (keys_of df kc)"
  shows "(if map (located df kc cols) sel \<noteq> [] then DataFrame_of_series (map (located df kc cols) sel)
          else Inr (DataFrame_empty cols))
         = (if sel \<noteq> [] \<and> \<not> distinct cols then Inl InvalidIndexError
            else Inr \<lparr>columns = cols, rows = map (located df kc cols) sel\<rparr>)"
proof (cases "sel = []")
  case True
  then show ?thesis by (simp add: DataFrame_empty_def)
next
  case False
  have "\<forall>r \<in> set (map (located df kc cols) sel). map fst (snd r) = cols"
    using assms by (auto simp: labels_located)
  moreover from False have "map (located df kc cols) sel \<noteq> []" by simp
  ultimately have "DataFrame_of_series (map (located df kc cols) sel)
      = (if distinct cols then Inr \<lparr>columns = cols, rows = map (located df kc cols) sel\<rparr>
         else Inl InvalidIndexError)"
    by (rule DataFrame_of_series_labels [rotated])
  with False show ?thesis by simp
qed

lemma columns_keyed_subset: "set cs \<subseteq> set (columns df) \<Longrightarrow> set cs \<subseteq> set (columns (keyed df kc))"
  by (auto simp: columns_keyed)

lemma compare_body_eq:
  assumes "frame_ok b" "frame_ok a"
    and "set (kc @ cc) \<subseteq> set (columns (keyed b kc))"
    and "set (kc @ cc) \<subseteq> set (columns (keyed a kc))"
    and "set ks \<subseteq> set (keys_of b kc) \<inter> set (keys_of a kc)"
  shows "compare_body ks (keyed b kc) (keyed a kc) kc cc
         = (if modified_keys ks b a kc cc \<noteq> [] \<and> \<not> distinct (kc @ cc) then Inl InvalidIndexError
            else Inr \<lparr>deleted = \<lparr>columns = kc @ cc,
                                  rows = map (project b kc (kc @ cc)) (unmatched b a kc)\<rparr>,
                      added = \<lparr>columns = kc @ cc,
                                rows = map (project a kc (kc @ cc)) (unmatched a b kc)\<rparr>,
                      modified_before_df = \<lparr>columns = kc @ cc,
                         rows = map (located b kc (kc @ cc)) (modified_keys ks b a kc cc)\<rparr>,
                      modified_after_df = \<lparr>columns = kc @ cc,
                         rows = map (located a kc (kc @ cc)) (modified_keys ks b a kc cc)\<rparr>\<rparr>)"
proof -
  let ?sel = "modified_keys ks b a kc cc"
  have sel: "set ?sel \<subseteq> set (keys_of b kc)" "set ?sel \<subseteq> set (keys_of a kc)"
    using assms(5) by (auto simp: modified_keys_def)
  have d: "rows_not_in (keyed b kc) (keyed a kc) (kc @ cc)
           = Inr \<lparr>columns = kc @ cc, rows = map (project b kc (kc @ cc)) (unmatched b a kc)\<rparr>"
    using assms(1,2,3) by (simp add: rows_not_in_keyed unmatched_def)
  have ad: "rows_not_in (keyed a kc) (keyed b kc) (kc @ cc)
           = Inr \<lparr>columns = kc @ cc, rows = map (project a kc (kc @ cc)) (unmatched a b kc)\<rparr>"
    using assms(1,2,4) by (simp add: rows_not_in_keyed unmatched_def)
  have l: "modified_loop (keyed b kc) (keyed a kc) (kc @ cc) cc ks ([], [])
           = Inr (map (located b kc (kc @ cc)) ?sel, map (located a kc (kc @ cc)) ?sel)"
    using modified_loop_eq [OF assms, of "([], [])"] by (simp add: modified_keys_def)
  note fb = frame_of_located [OF assms(1,3) sel(1)]
  note fa = frame_of_located [OF assms(2,4) sel(2)]
  show ?thesis
    unfolding compare_body_def Let_def d ad l bind_py_simps prod.case fb fa
    by simp
qed

lemma common_key_set_subset:
  "set_iteration (common_key_set b a kc) ks \<Longrightarrow> set ks \<subseteq> set (keys_of b kc) \<inter> set (keys_of a kc)"
  by (simp add: set_iteration_def common_key_set_def)

lemma compare_dataframes_valid:
  assumes "valid_call ks b a kc cc"
  shows "compare_dataframes ks b a kc cc
         = (keyed b kc, keyed a kc,
            Inr \<lparr>deleted = \<lparr>columns = kc @ cc,
                                rows = map (project b kc (kc @ cc)) (unmatched b a kc)\<rparr>,
                    added = \<lparr>columns = kc @ cc,
                              rows = map (project a kc (kc @ cc)) (unmatched a b kc)\<rparr>,
                    modified_before_df = \<lparr>columns = kc @ cc,
                       rows = map (located b kc (kc @ cc)) (modified_keys ks b a kc cc)\<rparr>,
                    modified_after_df = \<lparr>columns = kc @ cc,
                       rows = map (located a kc (kc @ cc)) (modified_keys ks b a kc cc)\<rparr>\<rparr>)"
proof -
  from assms have ok: "frame_ok b" "frame_ok a"
    and sb: "set (kc @ cc) \<subseteq> set (columns b)" and sa: "set (kc @ cc) \<subseteq> set (columns a)"
    and d: "distinct (kc @ cc)" and it: "set_iteration (common_key_set b a kc) ks"
    by (simp_all add: valid_call_def)
  have kb: "set kc \<subseteq> set (columns b)" and ka: "set kc \<subseteq> set (columns a)"
    using sb sa by auto
  note body = compare_body_eq [OF ok columns_keyed_subset [OF sb] columns_keyed_subset [OF sa]
      common_key_set_subset [OF it]]
  show ?thesis
    unfolding compare_dataframes_eq [OF kb ka] body using d by simp
qed


lemmas run_simps = compare_dataframes_def key_series_def getitem_list_def select_labels_def
  composite_key_def str_int_def digits.simps setitem_def compare_body_def rows_not_in_def
  getitem_col_def getitem_mask_def first_row_def iloc0_def series_getitem_def
  selection_dtype_def
  DataFrame_of_series_def DataFrame_empty_def Let_def

text \<open>
  A column selected as key column and as compare column occurs twice in a row, and the
  comparison is between the printed forms of two series. The printed form ends with
  the dtype: the row with \<open>id = 1\<close> is the same in \<open>typed_before\<close> and \<open>typed_after\<close>,
  but the column \<open>id\<close> holds integers in the first table (int64) and a text in the
  second (object), so the pair counts as changed, and a frame cannot be built from rows
  whose labels repeat.
\<close>

lemma printed_series_examples:
  "str_obj (SubSeries Int64 0 [(''id'', IntV 1), (''id'', IntV 1)])
     = ''id    1'' @ [CHR 0x0A] @ ''id    1'' @ [CHR 0x0A] @ ''Name: 0, dtype: int64''"
  "str_obj (SubSeries Object 0 [(''id'', IntV 1), (''id'', IntV 1)])
     = ''id    1'' @ [CHR 0x0A] @ ''id    1'' @ [CHR 0x0A] @ ''Name: 0, dtype: object''"
  "str_obj (SubSeries Int64 7 [(''id'', IntV (- 12)), (''id'', IntV (- 12))])
     = ''id   -12'' @ [CHR 0x0A] @ ''id   -12'' @ [CHR 0x0A] @ ''Name: 7, dtype: int64''"
  "str_obj (SubSeries Object 7 [(''id'', IntV (- 12)), (''id'', IntV (- 12))])
     = ''id    -12'' @ [CHR 0x0A] @ ''id    -12'' @ [CHR 0x0A] @ ''Name: 7, dtype: object''"
  by code_simp+

lemma dtype_compared_on_repeated_column:
  "snd (snd (compare_dataframes [StrV ''1''] typed_before typed_after [''id''] [''id'']))
     = Inl InvalidIndexError"
  "map_sum id (\<lambda>out. (rows (modified_before_df out), rows (modified_after_df out)))
     (snd (snd (compare_dataframes [StrV ''1'', StrV ''2''] typed_before typed_before
                  [''id''] [''id''])))
     = Inr ([], [])"
  by code_simp+

section \<open>C2: what the call does to its two arguments\<close>

lemma filter_without_with_key:
  "filter (\<lambda>e. fst e \<noteq> ''_key'') (snd (with_key df kc r)) = filter (\<lambda>e. fst e \<noteq> ''_key'') (snd r)"
proof -
  have "filter (\<lambda>e. fst e \<noteq> ''_key'')
          (map (\<lambda>e. if fst e = ''_key'' then (''_key'', v) else e) its)
        = filter (\<lambda>e. fst e \<noteq> ''_key'') its" for v and its :: items
    by (induction its) auto
  then show ?thesis by (simp add: with_key_def)
qed

lemma without_key_keyed: "without_column ''_key'' (keyed df kc) = without_column ''_key'' df"
  by (simp add: without_column_def rows_keyed columns_keyed filter_without_with_key)

text \<open>
  C2 (as amended). The claim says that both input tables are unchanged when the engine
  returns. The function assigns a column \<open>_key\<close> to each of the two frames it is given
  (lines 45 and 46), so the frames it was called with are changed; its caller passes
  copies. What holds for every call, whether it returns or raises: apart from the
  column \<open>_key\<close>, both frames are what they were: the same columns in the same order,
  the same rows in the same order, with the same index labels and the same values.
\<close>

theorem compare_dataframes_frame_effect:
  "without_column ''_key'' (fst (compare_dataframes ks b a kc cc)) = without_column ''_key'' b \<and>
   without_column ''_key'' (fst (snd (compare_dataframes ks b a kc cc))) = without_column ''_key'' a"
  by (simp add: compare_dataframes_def key_series_eq Let_def without_key_keyed [unfolded keyed_def])

text \<open>C2, counterexample: on the spec's own example the before frame has a fourth
  column after the call.\<close>

theorem input_tables_changed:
  "columns (fst (compare_dataframes [StrV ''1''] ex_before ex_after [''id''] [''name'', ''val'']))
     = [''id'', ''name'', ''val'', ''_key''] \<and>
   columns ex_before = [''id'', ''name'', ''val''] \<and>
   fst (compare_dataframes [StrV ''1''] ex_before ex_after [''id''] [''name'', ''val'']) \<noteq> ex_before"
  by (simp add: compare_dataframes_def key_series_def getitem_list_def setitem_def Let_def
      ex_before_def ex_after_def)

section \<open>C1: precondition violations\<close>

lemma getitem_col_error: "getitem_col df c = Inl e \<Longrightarrow> e = KeyError"
  by (auto simp: getitem_col_def split: if_splits option.splits)

lemma rows_not_in_error: "rows_not_in df other cols = Inl e \<Longrightarrow> e = KeyError"
  by (auto simp: rows_not_in_def bind_py_def getitem_list_def getitem_mask_def
      split: sum.splits if_splits dest: getitem_col_error)

lemma rows_not_in_missing:
  "\<not> set cols \<subseteq> set (columns df) \<Longrightarrow> rows_not_in df other cols = Inl KeyError"
  by (auto simp: rows_not_in_def bind_py_def getitem_list_def getitem_mask_def
      split: sum.splits dest: getitem_col_error)

lemma compare_body_missing:
  assumes "\<not> set (kc @ cc) \<subseteq> set (columns b) \<or> \<not> set (kc @ cc) \<subseteq> set (columns a)"
  shows "compare_body ks b a kc cc = Inl KeyError"
proof (cases "set (kc @ cc) \<subseteq> set (columns b)")
  case False
  then show ?thesis
    by (simp add: compare_body_def Let_def rows_not_in_missing)
next
  case True
  with assms have a: "rows_not_in a b (kc @ cc) = Inl KeyError"
    by (simp add: rows_not_in_missing)
  show ?thesis
  proof (cases "rows_not_in b a (kc @ cc)")
    case (Inl e)
    then show ?thesis
      using rows_not_in_error [OF Inl] by (simp add: compare_body_def Let_def)
  next
    case (Inr d)
    then show ?thesis by (simp add: compare_body_def Let_def a)
  qed
qed

text \<open>
  C1 (as amended). The claim says that the engine fails with InvalidInput on every
  precondition violation and never proceeds. The function checks nothing itself: the
  checks (same column sets, non-empty selections, columns chosen from the table) are
  its caller's, at lines 162, 187 and 205. What the function does on its own: when a
  key column is missing from either table, or a compare column (other than the name
  \<open>_key\<close>, which the function adds) is missing from either table, the column selection
  raises KeyError and there is no output.
\<close>

theorem missing_column_raises:
  assumes "\<not> set kc \<subseteq> set (columns b) \<or> \<not> set kc \<subseteq> set (columns a) \<or>
           \<not> set cc \<subseteq> insert ''_key'' (set (columns b)) \<or>
           \<not> set cc \<subseteq> insert ''_key'' (set (columns a))"
  shows "snd (snd (compare_dataframes ks b a kc cc)) = Inl KeyError"
proof (cases "set kc \<subseteq> set (columns b) \<and> set kc \<subseteq> set (columns a)")
  case False
  then show ?thesis
    by (auto simp: compare_dataframes_def key_series_eq Let_def)
next
  case True
  with assms have "\<not> set (kc @ cc) \<subseteq> set (columns (keyed b kc)) \<or>
                   \<not> set (kc @ cc) \<subseteq> set (columns (keyed a kc))"
    by (auto simp: columns_keyed)
  then have "compare_body ks (keyed b kc) (keyed a kc) kc cc = Inl KeyError"
    by (rule compare_body_missing)
  with True show ?thesis by (simp add: compare_dataframes_eq)
qed

text \<open>C1, witness: the spec's example with the compare column \<open>zz\<close>, which neither
  table has.\<close>

theorem missing_column_raises_witness:
  "\<not> set [''zz''] \<subseteq> insert ''_key'' (set (columns ex_before)) \<and>
   snd (snd (compare_dataframes [StrV ''1''] ex_before ex_after [''id''] [''zz''])) = Inl KeyError"
proof -
  have h: "\<not> set [''zz''] \<subseteq> insert ''_key'' (set (columns ex_before))"
    by (simp add: ex_before_def)
  then have "\<not> set [''id''] \<subseteq> set (columns ex_before) \<or> \<not> set [''id''] \<subseteq> set (columns ex_after) \<or>
           \<not> set [''zz''] \<subseteq> insert ''_key'' (set (columns ex_before)) \<or>
           \<not> set [''zz''] \<subseteq> insert ''_key'' (set (columns ex_after))"
    by blast
  from missing_column_raises [OF this] h show ?thesis by blast
qed

text \<open>C1, counterexample: with no compare column at all (a violated precondition) the
  function returns four tables on the spec's example, without an error.\<close>

theorem proceeds_without_compare_columns:
  "snd (snd (compare_dataframes [StrV ''1''] ex_before ex_after [''id''] []))
   = Inr \<lparr>deleted = \<lparr>columns = [''id''], rows = [(1, [(''id'', IntV 2)])]\<rparr>,
          added = \<lparr>columns = [''id''], rows = [(1, [(''id'', IntV 3)])]\<rparr>,
          modified_before_df = \<lparr>columns = [''id''], rows = []\<rparr>,
          modified_after_df = \<lparr>columns = [''id''], rows = []\<rparr>\<rparr>"
  by (simp add: run_simps ex_before_def ex_after_def)

section \<open>C3: the columns of the four output tables\<close>

lemma valid_callD:
  assumes "valid_call ks b a kc cc"
  shows "frame_ok b" "frame_ok a" "set (kc @ cc) \<subseteq> set (columns (keyed b kc))"
    "set (kc @ cc) \<subseteq> set (columns (keyed a kc))" "distinct (kc @ cc)"
    "set ks \<subseteq> set (keys_of b kc) \<inter> set (keys_of a kc)" "distinct ks"
  using assms
  by (auto simp: valid_call_def columns_keyed set_iteration_def common_key_set_def)

lemma modified_keys_subset: "set (modified_keys ks b a kc cc) \<subseteq> set ks"
  by (auto simp: modified_keys_def)

lemma has_layout_project:
  assumes "frame_ok df" "set cols \<subseteq> set (columns (keyed df kc))" "set rs \<subseteq> set (rows df)"
  shows "has_layout cols \<lparr>columns = cols, rows = map (project df kc cols) rs\<rparr>"
  using assms by (auto simp: has_layout_def list_all_iff labels_project)

lemma has_layout_located:
  assumes "frame_ok df" "set cols \<subseteq> set (columns (keyed df kc))" "set sel \<subseteq> set (keys_of df kc)"
  shows "has_layout cols \<lparr>columns = cols, rows = map (located df kc cols) sel\<rparr>"
  using assms by (auto simp: has_layout_def list_all_iff labels_located)

lemma ex_valid: "valid_call [StrV ''1''] ex_before ex_after [''id''] [''name'', ''val'']"
  by (simp add: valid_call_def frame_ok_def ex_before_def ex_after_def set_iteration_def
      common_key_set_def keys_of_def row_key_def select_labels_def composite_key_def str_int_def
      digits.simps)

text \<open>
  C3 (as amended). The claim says that every output table has the union of the key and
  compare columns as its columns, without duplicates, also when the compare columns
  overlap the key columns. The function selects \<open>key_columns + compare_columns\<close>, the
  two lists one after the other (line 49), so a column in both lists comes out twice.
  Its caller offers as compare columns only columns that are not key columns (line
  196). For such a call (\<open>valid_call\<close>: the selected columns exist in both tables and
  no column is selected twice) the function returns, and each of the four tables has
  exactly the key columns followed by the compare columns, as its column list and as
  the labels of each of its rows, whatever other columns the source tables have.
\<close>

theorem output_layout:
  assumes "valid_call ks b a kc cc"
  shows "\<exists>out. snd (snd (compare_dataframes ks b a kc cc)) = Inr out \<and>
           has_layout (kc @ filter (\<lambda>c. c \<notin> set kc) cc) (deleted out) \<and>
           has_layout (kc @ filter (\<lambda>c. c \<notin> set kc) cc) (added out) \<and>
           has_layout (kc @ filter (\<lambda>c. c \<notin> set kc) cc) (modified_before_df out) \<and>
           has_layout (kc @ filter (\<lambda>c. c \<notin> set kc) cc) (modified_after_df out) \<and>
           distinct (kc @ filter (\<lambda>c. c \<notin> set kc) cc) \<and>
           set (kc @ filter (\<lambda>c. c \<notin> set kc) cc) = set kc \<union> set cc"
proof -
  note v = valid_callD [OF assms]
  from v(5) have f: "filter (\<lambda>c. c \<notin> set kc) cc = cc"
    by (auto simp: filter_id_conv)
  have sb: "set (modified_keys ks b a kc cc) \<subseteq> set (keys_of b kc)"
    and sa: "set (modified_keys ks b a kc cc) \<subseteq> set (keys_of a kc)"
    using modified_keys_subset [of ks b a kc cc] v(6) by auto
  have "has_layout (kc @ cc) \<lparr>columns = kc @ cc, rows = map (project b kc (kc @ cc)) (unmatched b a kc)\<rparr>"
    using v(1,3) by (rule has_layout_project) (auto simp: unmatched_def)
  moreover have "has_layout (kc @ cc) \<lparr>columns = kc @ cc, rows = map (project a kc (kc @ cc)) (unmatched a b kc)\<rparr>"
    using v(2,4) by (rule has_layout_project) (auto simp: unmatched_def)
  moreover note has_layout_located [OF v(1,3) sb] has_layout_located [OF v(2,4) sa]
  ultimately show ?thesis
    using v(5) by (simp add: compare_dataframes_valid [OF assms] f)
qed

lemma ex_valid_val: "valid_call [StrV ''1''] ex_before ex_after [''id''] [''val'']"
  by (simp add: valid_call_def frame_ok_def ex_before_def ex_after_def set_iteration_def
      common_key_set_def keys_of_def row_key_def select_labels_def composite_key_def str_int_def
      digits.simps)

text \<open>C3, witness: the spec's example with the key column \<open>id\<close> and the compare column
  \<open>val\<close>; the source tables have the column \<open>name\<close> besides.\<close>

theorem output_layout_witness:
  "valid_call [StrV ''1''] ex_before ex_after [''id''] [''val''] \<and>
   columns ex_before = [''id'', ''name'', ''val''] \<and>
   (\<exists>out. snd (snd (compare_dataframes [StrV ''1''] ex_before ex_after [''id''] [''val''])) = Inr out \<and>
      has_layout [''id'', ''val''] (deleted out) \<and>
      has_layout [''id'', ''val''] (added out) \<and>
      has_layout [''id'', ''val''] (modified_before_df out) \<and>
      has_layout [''id'', ''val''] (modified_after_df out))"
proof -
  have c: "columns ex_before = [''id'', ''name'', ''val'']" by (simp add: ex_before_def)
  show ?thesis
    using output_layout [OF ex_valid_val] ex_valid_val c by auto
qed

text \<open>C3, counterexample: key column \<open>id\<close>, compare columns \<open>id\<close> and \<open>val\<close>, two
  one-row tables with different keys. Every output table has the column \<open>id\<close> twice.\<close>

theorem duplicate_columns_on_overlap:
  "snd (snd (compare_dataframes [] one_before one_after [''id''] [''id'', ''val'']))
   = Inr \<lparr>deleted = \<lparr>columns = [''id'', ''id'', ''val''],
             rows = [(0, [(''id'', IntV 1), (''id'', IntV 1), (''val'', IntV 10)])]\<rparr>,
          added = \<lparr>columns = [''id'', ''id'', ''val''],
             rows = [(0, [(''id'', IntV 2), (''id'', IntV 2), (''val'', IntV 10)])]\<rparr>,
          modified_before_df = \<lparr>columns = [''id'', ''id'', ''val''], rows = []\<rparr>,
          modified_after_df = \<lparr>columns = [''id'', ''id'', ''val''], rows = []\<rparr>\<rparr>"
  by (simp add: run_simps one_before_def one_after_def)

section \<open>C5: the Deleted and Added tables\<close>

lemma project_projection: "''_key'' \<notin> set cols \<Longrightarrow> project df kc cols r = projection cols r"
  by (simp add: project_def projection_def select_labels_with_key)

text \<open>
  C5 (as amended). The claim says that Deleted is the rows of the before table whose
  composite key is not among the after table's keys, projected to the union of the key
  and compare columns, in the before table's order, and Added likewise. The function
  projects to \<open>key_columns + compare_columns\<close>, so a column selected twice makes the
  rows wider than the projection to the union; its caller never selects a column
  twice. For a call whose selected columns exist in both tables, with no column
  selected twice and none of them named \<open>_key\<close>, the function returns, Deleted is
  exactly those rows of the before table, each projected to the key columns followed
  by the compare columns, in the before table's order, and Added is the same with the
  two tables exchanged.
\<close>

theorem deleted_added_rows:
  assumes "valid_call ks b a kc cc" "''_key'' \<notin> set (kc @ cc)"
  shows "\<exists>out. snd (snd (compare_dataframes ks b a kc cc)) = Inr out \<and>
           rows (deleted out)
             = map (projection (kc @ cc))
                 (filter (\<lambda>r. row_key kc r \<notin> set (keys_of a kc)) (rows b)) \<and>
           rows (added out)
             = map (projection (kc @ cc))
                 (filter (\<lambda>r. row_key kc r \<notin> set (keys_of b kc)) (rows a))"
  using assms(2)
  by (simp add: compare_dataframes_valid [OF assms(1)] unmatched_def project_projection
      cong: map_cong)

text \<open>C5, witness: the spec's example. Deleted is the row with id 2, Added the row
  with id 3.\<close>

theorem deleted_added_rows_witness:
  "valid_call [StrV ''1''] ex_before ex_after [''id''] [''name'', ''val''] \<and>
   ''_key'' \<notin> set ([''id''] @ [''name'', ''val'']) \<and>
   (\<exists>out. snd (snd (compare_dataframes [StrV ''1''] ex_before ex_after [''id''] [''name'', ''val''])) = Inr out \<and>
      rows (deleted out) = [(1, [(''id'', IntV 2), (''name'', StrV ''B''), (''val'', IntV 20)])] \<and>
      rows (added out) = [(1, [(''id'', IntV 3), (''name'', StrV ''C''), (''val'', IntV 30)])])"
proof -
  have h: "''_key'' \<notin> set ([''id''] @ [''name'', ''val''])" by simp
  have b: "map (projection ([''id''] @ [''name'', ''val'']))
             (filter (\<lambda>r. row_key [''id''] r \<notin> set (keys_of ex_after [''id''])) (rows ex_before))
           = [(1, [(''id'', IntV 2), (''name'', StrV ''B''), (''val'', IntV 20)])]"
    by (simp add: ex_before_def ex_after_def keys_of_def row_key_def select_labels_def
        composite_key_def str_int_def digits.simps projection_def)
  have a: "map (projection ([''id''] @ [''name'', ''val'']))
             (filter (\<lambda>r. row_key [''id''] r \<notin> set (keys_of ex_before [''id''])) (rows ex_after))
           = [(1, [(''id'', IntV 3), (''name'', StrV ''C''), (''val'', IntV 30)])]"
    by (simp add: ex_before_def ex_after_def keys_of_def row_key_def select_labels_def
        composite_key_def str_int_def digits.simps projection_def)
  show ?thesis
    using deleted_added_rows [OF ex_valid h] ex_valid h unfolding a b by blast
qed

text \<open>C5, counterexample: key column \<open>id\<close>, compare columns \<open>id\<close> and \<open>val\<close>. The row
  of Deleted has three entries; the before row projected to the union of the selected
  columns has two.\<close>

theorem deleted_row_not_projected_on_overlap:
  "map_sum id (\<lambda>out. rows (deleted out))
     (snd (snd (compare_dataframes [] one_before one_after [''id''] [''id'', ''val''])))
   = Inr [(0, [(''id'', IntV 1), (''id'', IntV 1), (''val'', IntV 10)])] \<and>
   map (projection [''id'', ''val'']) (rows one_before)
   = [(0, [(''id'', IntV 1), (''val'', IntV 10)])]"
  by (simp add: run_simps one_before_def one_after_def projection_def)

section \<open>C8: a table compared with itself\<close>

lemma has_changes_same: "has_changes r r cc \<noteq> Inr True"
  by (induction cc) (auto simp: bind_py_def split: sum.splits)

text \<open>
  C8. For every table \<open>t\<close> and every selection of key and compare columns among its
  columns, comparing \<open>t\<close> with an identical copy returns four tables without rows.
  The two arguments of the call are two copies of \<open>t\<close>; the order \<open>ks\<close> in which
  the keys are visited is arbitrary.
\<close>

theorem identical_tables:
  assumes "frame_ok t" "set (kc @ cc) \<subseteq> set (columns t)"
    and "set_iteration (common_key_set t t kc) ks"
  shows "\<exists>out. snd (snd (compare_dataframes ks t t kc cc)) = Inr out \<and>
           rows (deleted out) = [] \<and> rows (added out) = [] \<and>
           rows (modified_before_df out) = [] \<and> rows (modified_after_df out) = []"
proof -
  have kc: "set kc \<subseteq> set (columns t)" using assms(2) by simp
  have m: "modified_keys ks t t kc cc = []"
    by (simp add: modified_keys_def pair_changed_def has_changes_same)
  have u: "unmatched t t kc = []"
    by (auto simp: unmatched_def keys_of_def filter_empty_conv)
  note body = compare_body_eq [OF assms(1) assms(1) columns_keyed_subset [OF assms(2)]
      columns_keyed_subset [OF assms(2)] common_key_set_subset [OF assms(3)]]
  show ?thesis
    by (simp add: compare_dataframes_eq [OF kc kc] body m u)
qed

text \<open>C8, witness: the before table of the spec's example against itself, the keys
  visited in the order 2, 1.\<close>

theorem identical_tables_witness:
  "frame_ok ex_before \<and> set ([''id''] @ [''name'', ''val'']) \<subseteq> set (columns ex_before) \<and>
   set_iteration (common_key_set ex_before ex_before [''id'']) [StrV ''2'', StrV ''1''] \<and>
   (\<exists>out. snd (snd (compare_dataframes [StrV ''2'', StrV ''1''] ex_before ex_before
                       [''id''] [''name'', ''val''])) = Inr out \<and>
      rows (deleted out) = [] \<and> rows (added out) = [] \<and>
      rows (modified_before_df out) = [] \<and> rows (modified_after_df out) = [])"
proof -
  have f: "frame_ok ex_before" by (simp add: frame_ok_def ex_before_def)
  have s: "set ([''id''] @ [''name'', ''val'']) \<subseteq> set (columns ex_before)"
    by (simp add: ex_before_def)
  have i: "set_iteration (common_key_set ex_before ex_before [''id'']) [StrV ''2'', StrV ''1'']"
    by (auto simp: set_iteration_def common_key_set_def keys_of_def row_key_def select_labels_def
        composite_key_def str_int_def digits.simps ex_before_def)
  show ?thesis using identical_tables [OF f s i] f s i by blast
qed

section \<open>C4: which common keys are reported as modified\<close>

lemma series_getitem_distinct:
  "distinct (map fst (snd (snd s))) \<Longrightarrow> map_of (snd (snd s)) c = Some v
     \<Longrightarrow> series_getitem s c = Inr (Scalar v)"
  by (simp add: series_getitem_def filter_label_distinct)

lemma has_changes_distinct:
  assumes "distinct (map fst (snd (snd rb)))" "distinct (map fst (snd (snd ra)))"
    and "set cc \<subseteq> fst ` set (snd (snd rb))" "set cc \<subseteq> fst ` set (snd (snd ra))"
  shows "has_changes rb ra cc
         = Inr (\<exists>c \<in> set cc. map_option str (map_of (snd (snd rb)) c) \<noteq> map_option str (map_of (snd (snd ra)) c))"
  using assms(3,4)
proof (induction cc)
  case Nil
  then show ?case by simp
next
  case (Cons c cc)
  then have "map_of (snd (snd rb)) c \<noteq> None" "map_of (snd (snd ra)) c \<noteq> None"
    by (simp_all add: map_of_eq_None_iff)
  then obtain x y where x: "map_of (snd (snd rb)) c = Some x" and y: "map_of (snd (snd ra)) c = Some y"
    by blast
  have gx: "series_getitem rb c = Inr (Scalar x)"
    using assms(1) x by (rule series_getitem_distinct)
  have gy: "series_getitem ra c = Inr (Scalar y)"
    using assms(2) y by (rule series_getitem_distinct)
  from Cons show ?case
    by (simp add: gx gy x y)
qed

lemma map_of_replace_other:
  "c \<noteq> k \<Longrightarrow> map_of (map (\<lambda>e. if fst e = k then (k, v) else e) its) c = map_of its c"
  by (induction its) auto

lemma map_of_with_key:
  "c \<noteq> ''_key'' \<Longrightarrow> map_of (snd (with_key df kc r)) c = map_of (snd r) c"
  by (auto simp: with_key_def map_of_replace_other map_add_def split: option.splits)

lemma field_project:
  "c \<in> set cols \<Longrightarrow> c \<noteq> ''_key'' \<Longrightarrow> map_of (snd (project df kc cols r)) c = map_of (snd r) c"
  by (simp add: project_def map_of_select_labels map_of_with_key)

lemma located_Some:
  "first_with_key df kc k = Some r \<Longrightarrow> located df kc cols k = project df kc cols r"
  by (simp add: located_def)

lemma pair_changed_iff:
  assumes "valid_call ks b a kc cc" "''_key'' \<notin> set cc"
    and "first_with_key b kc k = Some rb" "first_with_key a kc k = Some ra"
  shows "pair_changed b a kc cc k
         \<longleftrightarrow> (\<exists>c \<in> set cc. map_option str (map_of (snd rb) c) \<noteq> map_option str (map_of (snd ra) c))"
proof -
  note v = valid_callD [OF assms(1)]
  from assms(3,4) have rb: "rb \<in> set (rows b)" and ra: "ra \<in> set (rows a)"
    by (simp_all add: first_with_key_SomeD)
  have lb: "map fst (snd (project b kc (kc @ cc) rb)) = kc @ cc"
    using v(1) rb v(3) by (rule labels_project)
  have la: "map fst (snd (project a kc (kc @ cc) ra)) = kc @ cc"
    using v(2) ra v(4) by (rule labels_project)
  have sb: "set cc \<subseteq> fst ` set (snd (project b kc (kc @ cc) rb))"
    using lb by (metis set_map set_append Un_upper2)
  have sa: "set cc \<subseteq> fst ` set (snd (project a kc (kc @ cc) ra))"
    using la by (metis set_map set_append Un_upper2)
  have "has_changes (db, project b kc (kc @ cc) rb) (da, project a kc (kc @ cc) ra) cc
        = Inr (\<exists>c \<in> set cc. map_option str (map_of (snd (project b kc (kc @ cc) rb)) c)
                           \<noteq> map_option str (map_of (snd (project a kc (kc @ cc) ra)) c))"
    for db da
    using has_changes_distinct [of "(db, project b kc (kc @ cc) rb)"
        "(da, project a kc (kc @ cc) ra)" cc] v(5) sb sa
    by (simp add: lb la)
  moreover have "\<And>c. c \<in> set cc \<Longrightarrow>
      map_of (snd (project b kc (kc @ cc) rb)) c = map_of (snd rb) c \<and>
      map_of (snd (project a kc (kc @ cc) ra)) c = map_of (snd ra) c"
  proof -
    fix c assume "c \<in> set cc"
    with assms(2) have "c \<in> set (kc @ cc)" "c \<noteq> ''_key''" by auto
    then show "map_of (snd (project b kc (kc @ cc) rb)) c = map_of (snd rb) c \<and>
      map_of (snd (project a kc (kc @ cc) ra)) c = map_of (snd ra) c"
      by (simp add: field_project)
  qed
  ultimately show ?thesis
    using assms(3,4) by (simp add: pair_changed_def typed_located_def located_Some cong: bex_cong)
qed

lemma modified_tables:
  assumes "valid_call ks b a kc cc"
  shows "\<exists>out. snd (snd (compare_dataframes ks b a kc cc)) = Inr out \<and>
           rows (modified_before_df out)
             = map (located b kc (kc @ cc)) (filter (pair_changed b a kc cc) ks) \<and>
           rows (modified_after_df out)
             = map (located a kc (kc @ cc)) (filter (pair_changed b a kc cc) ks)"
  by (simp add: compare_dataframes_valid [OF assms] modified_keys_def)

text \<open>The integer 5 in the before table against the text 5 in the after table: the
  pair is not reported.\<close>

lemma int_and_text_not_modified:
  "snd (snd (compare_dataframes [StrV ''1''] five_before five_after [''id''] [''val'']))
   = Inr \<lparr>deleted = \<lparr>columns = [''id'', ''val''], rows = []\<rparr>,
          added = \<lparr>columns = [''id'', ''val''], rows = []\<rparr>,
          modified_before_df = \<lparr>columns = [''id'', ''val''], rows = []\<rparr>,
          modified_after_df = \<lparr>columns = [''id'', ''val''], rows = []\<rparr>\<rparr>"
  by (simp add: run_simps five_before_def five_after_def)

text \<open>
  C4. The claim says that for every common key the first before row and the first
  after row with that key are compared over the compare columns by string form, and
  that the pair is modified exactly when some compared field differs. For calls that
  select no column twice and no compare column named \<open>_key\<close>, on tables with columns
  of 64-bit integers and of text, this is
  \<open>modified_tables\<close> with \<open>pair_changed_iff\<close> above. It fails when a compare column is
  named \<open>_key\<close>: line 45 has overwritten that column with the composite key in both
  frames, so the comparison sees two equal keys and not the tables' values. Here the
  two tables have one row each, with the same id and the values x and y in the column
  \<open>_key\<close>; the pair is not reported as modified.
\<close>

theorem changed_key_column_not_reported:
  "snd (snd (compare_dataframes [StrV ''1''] key_before key_after [''id''] [''_key'']))
   = Inr \<lparr>deleted = \<lparr>columns = [''id'', ''_key''], rows = []\<rparr>,
          added = \<lparr>columns = [''id'', ''_key''], rows = []\<rparr>,
          modified_before_df = \<lparr>columns = [''id'', ''_key''], rows = []\<rparr>,
          modified_after_df = \<lparr>columns = [''id'', ''_key''], rows = []\<rparr>\<rparr> \<and>
   map (\<lambda>r. map_option str (map_of (snd r) ''_key'')) (rows key_before) = [Some ''x''] \<and>
   map (\<lambda>r. map_option str (map_of (snd r) ''_key'')) (rows key_after) = [Some ''y''] \<and>
   keys_of key_before [''id''] = [StrV ''1''] \<and> keys_of key_after [''id''] = [StrV ''1'']"
  by (simp add: run_simps key_before_def key_after_def keys_of_def row_key_def)

section \<open>C9 and C10: the rows of the two Modified tables\<close>

lemma fst_project [simp]: "fst (project df kc cols r) = fst r"
  by (simp add: project_def)

lemma key_of_label_row:
  assumes "frame_ok df" "r \<in> set (rows df)"
  shows "key_of_label df kc (fst r) = Some (row_key kc r)"
proof -
  have "distinct (map fst (map (\<lambda>r. (fst r, row_key kc r)) (rows df)))"
    using assms(1) by (simp add: frame_ok_def comp_def)
  moreover have "(fst r, row_key kc r) \<in> set (map (\<lambda>r. (fst r, row_key kc r)) (rows df))"
    using assms(2) by auto
  ultimately show ?thesis
    unfolding key_of_label_def by (rule map_of_is_SomeI)
qed

lemma key_of_label_located:
  assumes "frame_ok df" "k \<in> set (keys_of df kc)"
  shows "key_of_label df kc (fst (located df kc cols k)) = Some k"
proof -
  from assms(2) obtain r where r: "first_with_key df kc k = Some r"
    using find_in_keys by blast
  then have "r \<in> set (rows df)" "row_key kc r = k"
    by (simp_all add: first_with_key_SomeD)
  with assms(1) r show ?thesis
    by (simp add: located_Some key_of_label_row)
qed

lemma source_keys_located:
  assumes "frame_ok df" "set sel \<subseteq> set (keys_of df kc)"
  shows "source_keys df kc \<lparr>columns = cs, rows = map (located df kc cols) sel\<rparr> = map Some sel"
  using assms by (auto simp: source_keys_def key_of_label_located)





lemma compare_dataframes_Inr:
  assumes "frame_ok b" "frame_ok a"
    and "set ks \<subseteq> set (keys_of b kc) \<inter> set (keys_of a kc)"
    and "snd (snd (compare_dataframes ks b a kc cc)) = Inr out"
  shows "out = \<lparr>deleted = \<lparr>columns = kc @ cc,
                    rows = map (project b kc (kc @ cc)) (unmatched b a kc)\<rparr>,
                 added = \<lparr>columns = kc @ cc,
                    rows = map (project a kc (kc @ cc)) (unmatched a b kc)\<rparr>,
                 modified_before_df = \<lparr>columns = kc @ cc,
                    rows = map (located b kc (kc @ cc)) (modified_keys ks b a kc cc)\<rparr>,
                 modified_after_df = \<lparr>columns = kc @ cc,
                    rows = map (located a kc (kc @ cc)) (modified_keys ks b a kc cc)\<rparr>\<rparr>"
    and "modified_keys ks b a kc cc \<noteq> [] \<Longrightarrow> distinct (kc @ cc)"
proof -
  have kc: "set kc \<subseteq> set (columns b) \<and> set kc \<subseteq> set (columns a)"
  proof (rule ccontr)
    assume "\<not> ?thesis"
    then have "snd (snd (compare_dataframes ks b a kc cc)) = Inl KeyError"
      by (auto simp: compare_dataframes_def key_series_eq Let_def)
    with assms(4) show False by simp
  qed
  then have eq: "compare_body ks (keyed b kc) (keyed a kc) kc cc = Inr out"
    using assms(4) by (simp add: compare_dataframes_eq)
  have cols: "set (kc @ cc) \<subseteq> set (columns (keyed b kc))" "set (kc @ cc) \<subseteq> set (columns (keyed a kc))"
    using compare_body_missing [of kc cc "keyed b kc" "keyed a kc" ks] eq by auto
  note body = compare_body_eq [OF assms(1,2) cols assms(3)]
  from eq show "out = \<lparr>deleted = \<lparr>columns = kc @ cc,
                    rows = map (project b kc (kc @ cc)) (unmatched b a kc)\<rparr>,
                 added = \<lparr>columns = kc @ cc,
                    rows = map (project a kc (kc @ cc)) (unmatched a b kc)\<rparr>,
                 modified_before_df = \<lparr>columns = kc @ cc,
                    rows = map (located b kc (kc @ cc)) (modified_keys ks b a kc cc)\<rparr>,
                 modified_after_df = \<lparr>columns = kc @ cc,
                    rows = map (located a kc (kc @ cc)) (modified_keys ks b a kc cc)\<rparr>\<rparr>"
    unfolding body by (simp split: if_splits)
  from eq show "modified_keys ks b a kc cc \<noteq> [] \<Longrightarrow> distinct (kc @ cc)"
    unfolding body by (simp split: if_splits)
qed


lemma dup_valid: "valid_call [StrV ''2'', StrV ''1''] dup_before dup_after [''id''] [''val'']"
  by (auto simp: valid_call_def frame_ok_def dup_before_def dup_after_def set_iteration_def
      common_key_set_def keys_of_def row_key_def select_labels_def composite_key_def str_int_def
      digits.simps)

lemma dup_result:
  "snd (snd (compare_dataframes [StrV ''2'', StrV ''1''] dup_before dup_after [''id''] [''val'']))
   = Inr dup_output"
  by (simp add: run_simps dup_before_def dup_after_def dup_output_def)

lemma valid_call_returns:
  "valid_call ks b a kc cc \<Longrightarrow> \<exists>out. snd (snd (compare_dataframes ks b a kc cc)) = Inr out"
  by (simp add: compare_dataframes_valid)





section \<open>C7: the partition of the rows\<close>

lemma fst_in_rows:
  assumes "frame_ok df" "r \<in> set (rows df)" "r' \<in> set (rows df)" "fst r = fst r'"
  shows "r = r'"
proof -
  from assms(1) have "inj_on fst (set (rows df))"
    by (simp add: frame_ok_def distinct_map)
  with assms(2,3,4) show ?thesis by (auto dest: inj_onD)
qed

lemma label_in_unmatched:
  assumes "frame_ok df" "r \<in> set (rows df)"
  shows "label_in \<lparr>columns = cs, rows = map (project df kc cols) (unmatched df other kc)\<rparr> r
         \<longleftrightarrow> row_key kc r \<notin> set (keys_of other kc)"
proof
  assume "label_in \<lparr>columns = cs, rows = map (project df kc cols) (unmatched df other kc)\<rparr> r"
  then obtain r' where r': "r' \<in> set (unmatched df other kc)" "fst r' = fst r"
    by (auto simp: label_in_def)
  then have "r' \<in> set (rows df)" by (simp add: unmatched_def)
  with assms r'(2) have "r' = r" by (simp add: fst_in_rows)
  with r'(1) show "row_key kc r \<notin> set (keys_of other kc)" by (simp add: unmatched_def)
next
  assume "row_key kc r \<notin> set (keys_of other kc)"
  with assms(2) have "r \<in> set (unmatched df other kc)" by (simp add: unmatched_def)
  then have "fst (project df kc cols r) \<in> fst ` set (map (project df kc cols) (unmatched df other kc))"
    by (intro imageI) simp
  then show "label_in \<lparr>columns = cs, rows = map (project df kc cols) (unmatched df other kc)\<rparr> r"
    by (simp add: label_in_def)
qed

lemma key_in_located:
  assumes "frame_ok src" "set sel \<subseteq> set (keys_of src kc)"
  shows "key_in src kc \<lparr>columns = cs, rows = map (located src kc cols) sel\<rparr> r
         \<longleftrightarrow> row_key kc r \<in> set sel"
  unfolding key_in_def source_keys_located [OF assms] by auto

text \<open>
  C7. Every row of the before table falls into exactly one of the classes Deleted,
  matched-unmodified and matched-modified, and every row of the after table into
  exactly one of Added, matched-unmodified and matched-modified, rows that share a
  composite key with other rows of their table included (they are in the class of
  their key). This holds for every pair of well-formed tables, every selection and
  every order in which the common keys are visited, whenever the function returns; and
  it returns for every valid call. The classes are read off the output as
  \<open>classes_before\<close> and \<open>classes_after\<close> define them.
\<close>

theorem rows_partitioned:
  assumes "frame_ok b" "frame_ok a" "set_iteration (common_key_set b a kc) ks"
  shows "(valid_call ks b a kc cc \<longrightarrow>
            (\<exists>out. snd (snd (compare_dataframes ks b a kc cc)) = Inr out)) \<and>
         (\<forall>out. snd (snd (compare_dataframes ks b a kc cc)) = Inr out \<longrightarrow>
            (\<forall>r \<in> set (rows b). length (classes_before out b a kc r) = 1) \<and>
            (\<forall>r \<in> set (rows a). length (classes_after out b a kc r) = 1))"
proof (intro conjI allI impI ballI)
  assume "valid_call ks b a kc cc"
  then show "\<exists>out. snd (snd (compare_dataframes ks b a kc cc)) = Inr out"
    by (rule valid_call_returns)
next
  fix out r
  assume res: "snd (snd (compare_dataframes ks b a kc cc)) = Inr out"
    and r: "r \<in> set (rows b)"
  note sub = common_key_set_subset [OF assms(3)]
  note o = compare_dataframes_Inr(1) [OF assms(1,2) sub res]
  let ?sel = "modified_keys ks b a kc cc"
  have sb: "set ?sel \<subseteq> set (keys_of b kc)" and sa: "set ?sel \<subseteq> set (keys_of a kc)"
    using modified_keys_subset [of ks b a kc cc] sub by auto
  show "length (classes_before out b a kc r) = 1"
    unfolding o using sa
    by (auto simp: classes_before_def label_in_unmatched [OF assms(1) r]
        key_in_located [OF assms(1) sb])
next
  fix out r
  assume res: "snd (snd (compare_dataframes ks b a kc cc)) = Inr out"
    and r: "r \<in> set (rows a)"
  note sub = common_key_set_subset [OF assms(3)]
  note o = compare_dataframes_Inr(1) [OF assms(1,2) sub res]
  let ?sel = "modified_keys ks b a kc cc"
  have sb: "set ?sel \<subseteq> set (keys_of b kc)" and sa: "set ?sel \<subseteq> set (keys_of a kc)"
    using modified_keys_subset [of ks b a kc cc] sub by auto
  show "length (classes_after out b a kc r) = 1"
    unfolding o using sb
    by (auto simp: classes_after_def label_in_unmatched [OF assms(2) r]
        key_in_located [OF assms(2) sa])
qed

text \<open>C7, witness: the two tables with repeated keys. Both rows with key 1 of the
  before table and both rows with key 2 of the after table are matched-modified.\<close>

theorem rows_partitioned_witness:
  "frame_ok dup_before \<and> frame_ok dup_after \<and>
   set_iteration (common_key_set dup_before dup_after [''id'']) [StrV ''2'', StrV ''1''] \<and>
   valid_call [StrV ''2'', StrV ''1''] dup_before dup_after [''id''] [''val''] \<and>
   snd (snd (compare_dataframes [StrV ''2'', StrV ''1''] dup_before dup_after [''id''] [''val'']))
     = Inr dup_output \<and>
   list_all (\<lambda>r. length (classes_before dup_output dup_before dup_after [''id''] r) = 1)
     (rows dup_before) \<and>
   list_all (\<lambda>r. length (classes_after dup_output dup_before dup_after [''id''] r) = 1)
     (rows dup_after) \<and>
   map (classes_before dup_output dup_before dup_after [''id'']) (rows dup_before)
     = [[MatchedModified], [MatchedModified], [MatchedModified], [Deleted]] \<and>
   map (classes_after dup_output dup_before dup_after [''id'']) (rows dup_after)
     = [[MatchedModified], [MatchedModified], [MatchedModified], [Added]]"
proof -
  have f: "frame_ok dup_before" "frame_ok dup_after"
    and i: "set_iteration (common_key_set dup_before dup_after [''id'']) [StrV ''2'', StrV ''1'']"
    using dup_valid by (simp_all add: valid_call_def)
  have c: "map (classes_before dup_output dup_before dup_after [''id'']) (rows dup_before)
     = [[MatchedModified], [MatchedModified], [MatchedModified], [Deleted]]"
    by (simp add: classes_before_def label_in_def key_in_def source_keys_def key_of_label_def
        dup_output_def dup_before_def dup_after_def keys_of_def row_key_def
        select_labels_def composite_key_def str_int_def digits.simps)
  have d: "map (classes_after dup_output dup_before dup_after [''id'']) (rows dup_after)
     = [[MatchedModified], [MatchedModified], [MatchedModified], [Added]]"
    by (simp add: classes_after_def label_in_def key_in_def source_keys_def key_of_label_def
        dup_output_def dup_before_def dup_after_def keys_of_def row_key_def
        select_labels_def composite_key_def str_int_def digits.simps)
  show ?thesis
    using rows_partitioned [OF f i, of "[''val'']"] f i dup_valid dup_result c d
    by (auto simp: list_all_iff)
qed

section \<open>C6: composite keys and matching\<close>

lemma append_char_eq:
  "c \<notin> set x \<Longrightarrow> c \<notin> set y \<Longrightarrow> x @ c # r = y @ c # s \<Longrightarrow> x = y \<and> r = s"
proof (induction x arbitrary: y)
  case Nil
  then show ?case by (cases y) auto
next
  case (Cons u x)
  then show ?case by (cases y) auto
qed

lemma join_inj:
  assumes "length xs = length ys" "bar_free xs" "bar_free ys"
    and "join ''||'' xs = join ''||'' ys"
  shows "xs = ys"
  using assms
proof (induction xs ys rule: list_induct2)
  case Nil
  then show ?case by simp
next
  case (Cons x xs y ys)
  show ?case
  proof (cases xs)
    case Nil
    with Cons show ?thesis by simp
  next
    case xs: (Cons x' xs')
    with Cons.hyps obtain y' ys' where ys: "ys = y' # ys'" by (cases ys) auto
    from Cons.prems have nx: "CHR ''|'' \<notin> set x" and ny: "CHR ''|'' \<notin> set y"
      by (simp_all add: bar_free_def)
    from Cons.prems(3) have "x @ CHR ''|'' # (CHR ''|'' # join ''||'' xs)
          = y @ CHR ''|'' # (CHR ''|'' # join ''||'' ys)"
      by (simp add: xs ys)
    from append_char_eq [OF nx ny this] have "x = y" "join ''||'' xs = join ''||'' ys"
      by simp_all
    moreover from Cons.prems have "bar_free xs" "bar_free ys" by (simp_all add: bar_free_def)
    ultimately show ?thesis using Cons.IH by simp
  qed
qed

lemma row_key_key_strings: "row_key kc r = StrV (join ''||'' (key_strings kc r))"
  by (simp add: row_key_def composite_key_def key_strings_def)

lemma length_key_strings:
  assumes "frame_ok df" "set kc \<subseteq> set (columns df)" "r \<in> set (rows df)"
  shows "length (key_strings kc r) = length kc"
proof -
  from assms(1,3) have l: "map fst (snd r) = columns df" "distinct (columns df)"
    by (simp_all add: frame_ok_def)
  then have "fst ` set (snd r) = set (columns df)" by (metis set_map)
  with l assms(2) have "map fst (select_labels kc (snd r)) = kc"
    by (simp add: labels_select)
  then have "length (select_labels kc (snd r)) = length kc"
    by (metis length_map)
  then show ?thesis by (simp add: key_strings_def)
qed

lemma compare_dataframes_Inr_keys:
  assumes "snd (snd (compare_dataframes ks b a kc cc)) = Inr out"
  shows "set kc \<subseteq> set (columns b)" "set kc \<subseteq> set (columns a)"
proof -
  have "set kc \<subseteq> set (columns b) \<and> set kc \<subseteq> set (columns a)"
  proof (rule ccontr)
    assume "\<not> ?thesis"
    then have "snd (snd (compare_dataframes ks b a kc cc)) = Inl KeyError"
      by (auto simp: compare_dataframes_def key_series_eq Let_def)
    with assms show False by simp
  qed
  then show "set kc \<subseteq> set (columns b)" "set kc \<subseteq> set (columns a)" by simp_all
qed

lemma row_key_joined: "row_key kc r = StrV (joined_key kc r)"
  by (simp add: row_key_key_strings joined_key_def)

lemma same_key_rows_located:
  assumes "k \<in> set (keys_of b kc)" "k \<in> set (keys_of a kc)"
  shows "same_key_rows b a kc (located b kc cols k) (located a kc cols k)"
proof -
  from assms obtain rb ra where
    rb: "first_with_key b kc k = Some rb" and ra: "first_with_key a kc k = Some ra"
    using find_in_keys by blast
  then have m: "rb \<in> set (rows b)" "ra \<in> set (rows a)" "row_key kc rb = k" "row_key kc ra = k"
    by (simp_all add: first_with_key_SomeD)
  then have "joined_key kc rb = joined_key kc ra"
    by (auto simp: row_key_joined)
  with m(1,2) show ?thesis
    unfolding same_key_rows_def using rb ra
    by (intro bexI [of _ rb] bexI [of _ ra]) (simp_all add: located_Some)
qed

lemma ex_valid_pair:
  "valid_call [StrV ''1||A''] ex_before ex_after [''id'', ''name''] [''val'']"
  by (simp add: valid_call_def frame_ok_def ex_before_def ex_after_def set_iteration_def
      common_key_set_def keys_of_def row_key_def select_labels_def composite_key_def str_int_def
      digits.simps)

lemma pair_result:
  "snd (snd (compare_dataframes [StrV ''1||A''] ex_before ex_after [''id'', ''name''] [''val'']))
   = Inr pair_output"
  by (simp add: run_simps ex_before_def ex_after_def pair_output_def)

text \<open>
  C6 (as amended). The claim says that a row's composite key is the string forms of its
  key values joined by the separator, that a before-row is matched to an after-row
  exactly when their keys are equal, and that with two key columns a row matches only
  a row with the identical pair of key values. For every pair of well-formed tables,
  every selection and every order in which the common keys are visited, a valid call
  returns, and whenever the function returns:
  \<^item> the \<open>_key\<close> column it stores in each frame is that join, row by row (lines 45, 46);
  \<^item> a before-row is in Deleted exactly when no after-row has an equal composite key,
    and an after-row is in Added exactly when no before-row has one (lines 52, 56);
  \<^item> the rows at one position of ModifiedBefore and ModifiedAfter are taken from a
    before-row and an after-row with equal composite keys (lines 60, 66, 67);
  \<^item> two rows whose key values have no string form with the character of the
    separator have equal composite keys exactly when the string forms of their key
    values are equal, one by one. In general they need not: the join does not escape
    the separator.
\<close>

theorem composite_key_matching:
  assumes "frame_ok b" "frame_ok a" "set_iteration (common_key_set b a kc) ks"
  shows "(valid_call ks b a kc cc \<longrightarrow>
            (\<exists>out. snd (snd (compare_dataframes ks b a kc cc)) = Inr out)) \<and>
         (\<forall>out. snd (snd (compare_dataframes ks b a kc cc)) = Inr out \<longrightarrow>
            getitem_col (fst (compare_dataframes ks b a kc cc)) ''_key''
              = Inr (map (\<lambda>r. StrV (joined_key kc r)) (rows b)) \<and>
            getitem_col (fst (snd (compare_dataframes ks b a kc cc))) ''_key''
              = Inr (map (\<lambda>r. StrV (joined_key kc r)) (rows a)) \<and>
            (\<forall>rb \<in> set (rows b).
               label_in (deleted out) rb
                 \<longleftrightarrow> (\<forall>ra \<in> set (rows a). joined_key kc rb \<noteq> joined_key kc ra)) \<and>
            (\<forall>ra \<in> set (rows a).
               label_in (added out) ra
                 \<longleftrightarrow> (\<forall>rb \<in> set (rows b). joined_key kc rb \<noteq> joined_key kc ra)) \<and>
            list_all2 (same_key_rows b a kc)
              (rows (modified_before_df out)) (rows (modified_after_df out)) \<and>
            (\<forall>rb \<in> set (rows b). \<forall>ra \<in> set (rows a).
               bar_free (key_strings kc rb) \<and> bar_free (key_strings kc ra) \<longrightarrow>
                 (joined_key kc rb = joined_key kc ra
                    \<longleftrightarrow> key_strings kc rb = key_strings kc ra)))"
proof (intro conjI allI impI)
  assume "valid_call ks b a kc cc"
  then show "\<exists>out. snd (snd (compare_dataframes ks b a kc cc)) = Inr out"
    by (rule valid_call_returns)
next
  fix out
  assume res: "snd (snd (compare_dataframes ks b a kc cc)) = Inr out"
  note sub = common_key_set_subset [OF assms(3)]
  note o = compare_dataframes_Inr(1) [OF assms(1,2) sub res]
  note kc = compare_dataframes_Inr_keys [OF res]
  let ?sel = "modified_keys ks b a kc cc"
  have sel: "set ?sel \<subseteq> set (keys_of b kc) \<inter> set (keys_of a kc)"
    using modified_keys_subset [of ks b a kc cc] sub by auto
  have "getitem_col (keyed b kc) ''_key'' = Inr (keys_of b kc)"
       "getitem_col (keyed a kc) ''_key'' = Inr (keys_of a kc)"
    using assms(1,2) by (simp_all add: getitem_col_keyed)
  then show "getitem_col (fst (compare_dataframes ks b a kc cc)) ''_key''
           = Inr (map (\<lambda>r. StrV (joined_key kc r)) (rows b))"
       "getitem_col (fst (snd (compare_dataframes ks b a kc cc))) ''_key''
           = Inr (map (\<lambda>r. StrV (joined_key kc r)) (rows a))"
    using kc by (simp_all add: compare_dataframes_eq keys_of_def row_key_joined)
  show "\<forall>rb \<in> set (rows b).
          label_in (deleted out) rb
            \<longleftrightarrow> (\<forall>ra \<in> set (rows a). joined_key kc rb \<noteq> joined_key kc ra)"
  proof
    fix rb assume rb: "rb \<in> set (rows b)"
    show "label_in (deleted out) rb
            \<longleftrightarrow> (\<forall>ra \<in> set (rows a). joined_key kc rb \<noteq> joined_key kc ra)"
      unfolding o using label_in_unmatched [OF assms(1) rb, of "kc @ cc" kc "kc @ cc" a]
      by (auto simp: keys_of_def row_key_joined)
  qed
  show "\<forall>ra \<in> set (rows a).
          label_in (added out) ra
            \<longleftrightarrow> (\<forall>rb \<in> set (rows b). joined_key kc rb \<noteq> joined_key kc ra)"
  proof
    fix ra assume ra: "ra \<in> set (rows a)"
    show "label_in (added out) ra
            \<longleftrightarrow> (\<forall>rb \<in> set (rows b). joined_key kc rb \<noteq> joined_key kc ra)"
    proof -
      have "row_key kc ra \<notin> set (keys_of b kc)
              \<longleftrightarrow> (\<forall>rb \<in> set (rows b). joined_key kc rb \<noteq> joined_key kc ra)"
        by (auto simp: keys_of_def row_key_joined image_iff)
      then show ?thesis
        unfolding o using label_in_unmatched [OF assms(2) ra, of "kc @ cc" kc "kc @ cc" b]
        by simp
    qed
  qed
  show "list_all2 (same_key_rows b a kc)
          (rows (modified_before_df out)) (rows (modified_after_df out))"
    unfolding o using sel
    by (auto simp: list_all2_map1 list_all2_map2 list_all2_same intro: same_key_rows_located)
  show "\<forall>rb \<in> set (rows b). \<forall>ra \<in> set (rows a).
          bar_free (key_strings kc rb) \<and> bar_free (key_strings kc ra) \<longrightarrow>
            (joined_key kc rb = joined_key kc ra \<longleftrightarrow> key_strings kc rb = key_strings kc ra)"
  proof (intro ballI impI)
    fix rb ra
    assume m: "rb \<in> set (rows b)" "ra \<in> set (rows a)"
      and f: "bar_free (key_strings kc rb) \<and> bar_free (key_strings kc ra)"
    have "length (key_strings kc rb) = length (key_strings kc ra)"
      using assms(1,2) kc m by (simp add: length_key_strings)
    then show "joined_key kc rb = joined_key kc ra \<longleftrightarrow> key_strings kc rb = key_strings kc ra"
      using f by (auto simp: joined_key_def dest: join_inj)
  qed
qed

text \<open>C6, witness: the spec's example with the key columns \<open>id\<close> and \<open>name\<close>. The rows
  with the keys 2||B and 3||C have no partner and are Deleted and Added; the rows with
  the key 1||A are paired.\<close>

theorem composite_key_matching_witness:
  "frame_ok ex_before \<and> frame_ok ex_after \<and>
   set_iteration (common_key_set ex_before ex_after [''id'', ''name'']) [StrV ''1||A''] \<and>
   valid_call [StrV ''1||A''] ex_before ex_after [''id'', ''name''] [''val''] \<and>
   snd (snd (compare_dataframes [StrV ''1||A''] ex_before ex_after [''id'', ''name''] [''val'']))
     = Inr pair_output \<and>
   getitem_col (fst (compare_dataframes [StrV ''1||A''] ex_before ex_after [''id'', ''name''] [''val''])) ''_key''
     = Inr [StrV ''1||A'', StrV ''2||B''] \<and>
   getitem_col (fst (snd (compare_dataframes [StrV ''1||A''] ex_before ex_after [''id'', ''name''] [''val'']))) ''_key''
     = Inr [StrV ''1||A'', StrV ''3||C''] \<and>
   map (label_in (deleted pair_output)) (rows ex_before) = [False, True] \<and>
   map (label_in (added pair_output)) (rows ex_after) = [False, True] \<and>
   list_all2 (same_key_rows ex_before ex_after [''id'', ''name''])
     (rows (modified_before_df pair_output)) (rows (modified_after_df pair_output)) \<and>
   list_all (\<lambda>rb. list_all (\<lambda>ra.
       joined_key [''id'', ''name''] rb = joined_key [''id'', ''name''] ra
         \<longleftrightarrow> key_strings [''id'', ''name''] rb = key_strings [''id'', ''name''] ra)
     (rows ex_after)) (rows ex_before)"
proof -
  have f: "frame_ok ex_before" "frame_ok ex_after"
    and i: "set_iteration (common_key_set ex_before ex_after [''id'', ''name'']) [StrV ''1||A'']"
    using ex_valid_pair by (simp_all add: valid_call_def)
  have kb: "map (\<lambda>r. StrV (joined_key [''id'', ''name''] r)) (rows ex_before)
            = [StrV ''1||A'', StrV ''2||B'']"
    by (simp add: ex_before_def joined_key_def key_strings_def select_labels_def str_int_def
        digits.simps)
  have ka: "map (\<lambda>r. StrV (joined_key [''id'', ''name''] r)) (rows ex_after)
            = [StrV ''1||A'', StrV ''3||C'']"
    by (simp add: ex_after_def joined_key_def key_strings_def select_labels_def str_int_def
        digits.simps)
  have bf: "\<forall>r \<in> set (rows ex_before) \<union> set (rows ex_after). bar_free (key_strings [''id'', ''name''] r)"
    by (simp add: ex_before_def ex_after_def key_strings_def select_labels_def str_int_def
        digits.simps bar_free_def)
  have l: "map (label_in (deleted pair_output)) (rows ex_before) = [False, True]"
    "map (label_in (added pair_output)) (rows ex_after) = [False, True]"
    by (simp_all add: label_in_def pair_output_def ex_before_def ex_after_def)
  note t = composite_key_matching [OF f i, of "[''val'']"]
  from t pair_result have
    "getitem_col (fst (compare_dataframes [StrV ''1||A''] ex_before ex_after [''id'', ''name''] [''val''])) ''_key''
       = Inr [StrV ''1||A'', StrV ''2||B'']"
    "getitem_col (fst (snd (compare_dataframes [StrV ''1||A''] ex_before ex_after [''id'', ''name''] [''val'']))) ''_key''
       = Inr [StrV ''1||A'', StrV ''3||C'']"
    "list_all2 (same_key_rows ex_before ex_after [''id'', ''name''])
       (rows (modified_before_df pair_output)) (rows (modified_after_df pair_output))"
    "\<forall>rb \<in> set (rows ex_before). \<forall>ra \<in> set (rows ex_after).
       bar_free (key_strings [''id'', ''name''] rb) \<and> bar_free (key_strings [''id'', ''name''] ra) \<longrightarrow>
         (joined_key [''id'', ''name''] rb = joined_key [''id'', ''name''] ra
            \<longleftrightarrow> key_strings [''id'', ''name''] rb = key_strings [''id'', ''name''] ra)"
    unfolding kb [symmetric] ka [symmetric] by blast+
  with f i ex_valid_pair pair_result l bf show ?thesis
    by (simp add: list_all_iff)
qed

text \<open>C6, counterexample: key columns \<open>dept\<close> and \<open>empId\<close>. The before row has the key
  values a||b and c, the after row a and b||c; both get the key a||b||c, neither is
  Deleted or Added, and the two are reported as one modified pair.\<close>

theorem separator_collision:
  "keys_of sep_before [''dept'', ''empId''] = [StrV ''a||b||c''] \<and>
   keys_of sep_after [''dept'', ''empId''] = [StrV ''a||b||c''] \<and>
   map (key_strings [''dept'', ''empId'']) (rows sep_before) = [[''a||b'', ''c'']] \<and>
   map (key_strings [''dept'', ''empId'']) (rows sep_after) = [[''a'', ''b||c'']] \<and>
   snd (snd (compare_dataframes [StrV ''a||b||c''] sep_before sep_after [''dept'', ''empId''] [''val'']))
   = Inr \<lparr>deleted = \<lparr>columns = [''dept'', ''empId'', ''val''], rows = []\<rparr>,
          added = \<lparr>columns = [''dept'', ''empId'', ''val''], rows = []\<rparr>,
          modified_before_df = \<lparr>columns = [''dept'', ''empId'', ''val''],
            rows = [(0, [(''dept'', StrV ''a||b''), (''empId'', StrV ''c''), (''val'', IntV 1)])]\<rparr>,
          modified_after_df = \<lparr>columns = [''dept'', ''empId'', ''val''],
            rows = [(0, [(''dept'', StrV ''a''), (''empId'', StrV ''b||c''), (''val'', IntV 2)])]\<rparr>\<rparr>"
  by (simp add: run_simps sep_before_def sep_after_def keys_of_def row_key_def key_strings_def)

end
